theory Spec2Isabelle
  imports Complex_Main "HOL-Library.Sublist"
begin

section \<open>Errors\<close>

text \<open>
  Every exception the modelled Python can raise is a value.  \<open>RuntimeError\<close> is what
  torch raises when two shapes cannot be broadcast together.
\<close>

datatype error =
    AssertionError | IndexError | KeyError | ValueError | AttributeError | RuntimeError

definition bind :: "error + 'a \<Rightarrow> ('a \<Rightarrow> error + 'b) \<Rightarrow> error + 'b" where
  "bind m f = (case m of Inl e \<Rightarrow> Inl e | Inr x \<Rightarrow> f x)"

section \<open>Tensors\<close>

text \<open>
  The tensor library (torch) is an external collaborator.  A tensor is a shape and its
  entries in row-major order; floating-point numbers are idealised as reals.  An entry of
  a differentiable tensor carries its value and its derivative with respect to one
  upstream parameter (\<open>grad\<close>), which is what \<open>detach\<close> clears.
\<close>

datatype dual = Dual (val: real) (grad: real)

instantiation dual :: "{zero, one, plus, minus, uminus, times}"
begin

definition zero_dual :: dual where "zero_dual = Dual 0 0"
definition one_dual :: dual where "one_dual = Dual 1 0"
definition plus_dual :: "dual \<Rightarrow> dual \<Rightarrow> dual" where
  "plus_dual x y = Dual (val x + val y) (grad x + grad y)"
definition minus_dual :: "dual \<Rightarrow> dual \<Rightarrow> dual" where
  "minus_dual x y = Dual (val x - val y) (grad x - grad y)"
definition uminus_dual :: "dual \<Rightarrow> dual" where
  "uminus_dual x = Dual (- val x) (- grad x)"
definition times_dual :: "dual \<Rightarrow> dual \<Rightarrow> dual" where
  "times_dual x y = Dual (val x * val y) (val x * grad y + grad x * val y)"

instance ..

end

instance dual :: comm_monoid_add
  by standard (simp_all add: plus_dual_def zero_dual_def)

definition dexp :: "dual \<Rightarrow> dual" where
  "dexp x = Dual (exp (val x)) (grad x * exp (val x))"

definition ddetach :: "dual \<Rightarrow> dual" where
  "ddetach x = Dual (val x) 0"

definition dconst :: "real \<Rightarrow> dual" where
  "dconst r = Dual r 0"

datatype 'a tensor = Tensor (shape: "nat list") (data: "'a list")

definition wf_tensor :: "'a tensor \<Rightarrow> bool" where
  "wf_tensor t = (length (data t) = prod_list (shape t))"

definition scalar :: "'a \<Rightarrow> 'a tensor" where
  "scalar x = Tensor [] [x]"

definition tmap :: "('a \<Rightarrow> 'b) \<Rightarrow> 'a tensor \<Rightarrow> 'b tensor" where
  "tmap f t = Tensor (shape t) (map f (data t))"

text \<open>
  An index into a sequence of \<open>n\<close> items, as Python reads it: \<open>i\<close> itself from the
  front, \<open>n + i\<close> when \<open>i\<close> is negative, and no position at all outside \<open>-n \<dots> n - 1\<close>.
\<close>

definition normalize_index :: "nat \<Rightarrow> int \<Rightarrow> nat option" where
  "normalize_index n i =
     (if 0 \<le> i \<and> i < int n then Some (nat i)
      else if i < 0 \<and> - int n \<le> i then Some (nat (int n + i))
      else None)"

definition py_index :: "'a list \<Rightarrow> int \<Rightarrow> error + 'a" where
  "py_index xs i =
     (case normalize_index (length xs) i of
        None \<Rightarrow> Inl IndexError
      | Some j \<Rightarrow> Inr (xs ! j))"

text \<open>All multi-indices of a shape, in row-major order.\<close>

fun indices :: "nat list \<Rightarrow> nat list list" where
  "indices [] = [[]]"
| "indices (n # ns) = concat (map (\<lambda>i. map ((#) i) (indices ns)) [0..<n])"

text \<open>
  The row-major position of a multi-index.  An axis of extent one is always read at
  position 0, which is how a broadcast tensor is read.
\<close>

fun offset :: "nat list \<Rightarrow> nat list \<Rightarrow> nat" where
  "offset (n # ns) (i # is) = (if n = 1 then 0 else i) * prod_list ns + offset ns is"
| "offset _ _ = 0"

text \<open>Shapes are aligned at their trailing axes: a tensor of lower rank ignores the
  leading components of the index.\<close>

definition bc_offset :: "nat list \<Rightarrow> nat list \<Rightarrow> nat" where
  "bc_offset s idx = offset s (drop (length idx - length s) idx)"

definition broadcast_dim :: "nat \<Rightarrow> nat \<Rightarrow> nat option" where
  "broadcast_dim a b =
     (if a = b then Some a else if a = 1 then Some b else if b = 1 then Some a else None)"

fun broadcast_rev :: "nat list \<Rightarrow> nat list \<Rightarrow> nat list option" where
  "broadcast_rev [] ys = Some ys"
| "broadcast_rev (x # xs) [] = Some (x # xs)"
| "broadcast_rev (x # xs) (y # ys) =
     (case broadcast_dim x y of
        None \<Rightarrow> None
      | Some d \<Rightarrow> map_option ((#) d) (broadcast_rev xs ys))"

definition broadcast_shapes :: "nat list \<Rightarrow> nat list \<Rightarrow> nat list option" where
  "broadcast_shapes s1 s2 = map_option rev (broadcast_rev (rev s1) (rev s2))"

definition expand :: "'a tensor \<Rightarrow> nat list \<Rightarrow> 'a list" where
  "expand t s = map (\<lambda>idx. data t ! bc_offset (shape t) idx) (indices s)"

text \<open>An elementwise binary operation with broadcasting.\<close>

definition tbinop :: "('a \<Rightarrow> 'b \<Rightarrow> 'c) \<Rightarrow> 'a tensor \<Rightarrow> 'b tensor \<Rightarrow> error + 'c tensor" where
  "tbinop f a b =
     (case broadcast_shapes (shape a) (shape b) of
        None \<Rightarrow> Inl RuntimeError
      | Some s \<Rightarrow> Inr (Tensor s (map (\<lambda>(x, y). f x y) (zip (expand a s) (expand b s)))))"

definition tadd :: "dual tensor \<Rightarrow> dual tensor \<Rightarrow> error + dual tensor" where
  "tadd = tbinop (+)"

text \<open>\<open>t.sum(k, keepdim=True)\<close> for an axis \<open>k\<close> counted from the front.\<close>

definition sum_dim :: "nat \<Rightarrow> dual tensor \<Rightarrow> dual tensor" where
  "sum_dim k t =
     (let s = (shape t)[k := 1]
      in Tensor s
           (map (\<lambda>idx. sum_list (map (\<lambda>j. data t ! offset (shape t) (idx[k := j]))
                                     [0..<shape t ! k]))
                (indices s)))"

text \<open>\<open>t.sum(d, True)\<close> for a Python axis \<open>d\<close>, which may be negative.\<close>

definition tsum_keepdim :: "int \<Rightarrow> dual tensor \<Rightarrow> error + dual tensor" where
  "tsum_keepdim d t =
     (case normalize_index (length (shape t)) d of
        None \<Rightarrow> Inl IndexError
      | Some k \<Rightarrow> Inr (sum_dim k t))"

section \<open>MultiFrameTensor\<close>

subsection \<open>Frames and add\<close>

text \<open>
  Modelled from the spec: the frame type (\<open>CondIndepStackFrame\<close>) is declared outside
  the source shown; the spec gives it an identifier, an integer axis index, a boolean
  "vectorized" and a size.
\<close>

record frame =
  name :: string
  dim :: int
  vectorized :: bool
  fsize :: nat

text \<open>
  A \<open>MultiFrameTensor\<close> is a dict from frozensets of frames to tensors.  It is kept as
  an association list in insertion order.  A key is the list of its distinct frames
  (the order in which the frozenset is iterated); two keys are equal when they have
  the same elements.
\<close>

type_synonym mft = "(frame list \<times> dual tensor) list"

fun mft_lookup :: "mft \<Rightarrow> frame list \<Rightarrow> dual tensor option" where
  "mft_lookup [] k = None"
| "mft_lookup ((k', v) # rest) k = (if set k' = set k then Some v else mft_lookup rest k)"

text \<open>\<open>self[frames] = v\<close>: an existing key keeps its place (and its key object), a new
  key goes last.\<close>

fun mft_store :: "mft \<Rightarrow> frame list \<Rightarrow> dual tensor \<Rightarrow> mft" where
  "mft_store [] k v = [(k, v)]"
| "mft_store ((k', w) # rest) k v =
     (if set k' = set k then (k', v) # rest else (k', w) # mft_store rest k v)"

definition frozen_frames :: "frame list \<Rightarrow> frame list" where
  "frozen_frames cond_indep_stack = remdups (filter vectorized cond_indep_stack)"

definition frame_ok :: "dual tensor \<Rightarrow> frame \<Rightarrow> bool" where
  "frame_ok v f = (dim f < 0 \<and> - int (length (shape v)) \<le> dim f)"

definition add_item :: "mft \<Rightarrow> frame list \<times> dual tensor \<Rightarrow> error + mft" where
  "add_item self item =
     (case item of (cond_indep_stack, v) \<Rightarrow>
        let frames = frozen_frames cond_indep_stack in
        if \<not> list_all (frame_ok v) frames then Inl AssertionError
        else (case mft_lookup self frames of
                Some w \<Rightarrow> bind (tadd w v) (\<lambda>s. Inr (mft_store self frames s))
              | None \<Rightarrow> Inr (mft_store self frames v)))"

fun add :: "mft \<Rightarrow> (frame list \<times> dual tensor) list \<Rightarrow> error + mft" where
  "add self [] = Inr self"
| "add self (item # items) = bind (add_item self item) (\<lambda>self'. add self' items)"

definition MultiFrameTensor :: "(frame list \<times> dual tensor) list \<Rightarrow> error + mft" where
  "MultiFrameTensor items = add [] items"

subsection \<open>Tensor objects\<close>

text \<open>
  \<open>add\<close> reads the tensors it is given and builds new ones; \<open>sum_to\<close> also works in
  place (\<open>squeeze_\<close>) on the tensor objects the dict holds.  So \<open>sum_to\<close> runs on a dict
  whose values are references into a heap of tensor objects.  An object carries its
  tensor and the two autograd flags: with gradients enabled, torch raises RuntimeError on
  an in-place operation on a leaf tensor that requires grad.  The result of a
  differentiable operation requires grad when an operand does, and is then no leaf.
\<close>

record tobj =
  payload :: "dual tensor"
  requires_grad :: bool
  is_leaf :: bool

record heap =
  obj :: "nat \<Rightarrow> tobj"
  next_ref :: nat

abbreviation tensor_at :: "heap \<Rightarrow> nat \<Rightarrow> dual tensor" where
  "tensor_at h r \<equiv> payload (obj h r)"

definition alloc :: "heap \<Rightarrow> tobj \<Rightarrow> nat \<times> heap" where
  "alloc h x = (next_ref h, h\<lparr>obj := (obj h)(next_ref h := x), next_ref := Suc (next_ref h)\<rparr>)"

definition derived :: "bool \<Rightarrow> dual tensor \<Rightarrow> tobj" where
  "derived rg t = \<lparr>payload = t, requires_grad = rg, is_leaf = \<not> rg\<rparr>"

type_synonym mft_refs = "(frame list \<times> nat) list"

text \<open>The dict of tensors that a dict of references stands for.\<close>

definition contents :: "heap \<Rightarrow> mft_refs \<Rightarrow> mft" where
  "contents h self = map (\<lambda>(frames, r). (frames, tensor_at h r)) self"

subsection \<open>sum\_to\<close>

text \<open>
  The inner loop of \<open>sum_to\<close> over the frames of one key: \<open>value\<close> is a reference, and
  \<open>value = value.sum(f.dim, True)\<close> rebinds it to a new object.
\<close>

fun reduce_frames :: "frame set \<Rightarrow> frame list \<Rightarrow> heap \<Rightarrow> nat \<Rightarrow> error + (nat \<times> heap)" where
  "reduce_frames target_frames [] h v = Inr (v, h)"
| "reduce_frames target_frames (f # fs) h v =
     (if f \<notin> target_frames
      then bind (py_index (shape (tensor_at h v)) (dim f)) (\<lambda>extent.
             if extent \<noteq> 1
             then bind (tsum_keepdim (dim f) (tensor_at h v)) (\<lambda>t.
                    case alloc h (derived (requires_grad (obj h v)) t) of
                      (v', h') \<Rightarrow> reduce_frames target_frames fs h' v')
             else reduce_frames target_frames fs h v)
      else reduce_frames target_frames fs h v)"

definition squeeze_0 :: "'a tensor \<Rightarrow> 'a tensor" where
  "squeeze_0 v = Tensor (tl (shape v)) (data v)"

text \<open>\<open>value.squeeze_(0)\<close>, in place on the object \<open>value\<close> refers to.\<close>

definition squeeze_inplace :: "heap \<Rightarrow> nat \<Rightarrow> error + heap" where
  "squeeze_inplace h v =
     (if is_leaf (obj h v) \<and> requires_grad (obj h v) then Inl RuntimeError
      else Inr (h\<lparr>obj := (obj h)(v := (obj h v)\<lparr>payload := squeeze_0 (tensor_at h v)\<rparr>)\<rparr>))"

text \<open>\<open>while value.shape and value.shape[0] == 1: value.squeeze_(0)\<close>\<close>

function squeeze_loop :: "heap \<Rightarrow> nat \<Rightarrow> error + heap" where
  "squeeze_loop h v =
     (if shape (tensor_at h v) \<noteq> [] \<and> hd (shape (tensor_at h v)) = 1
      then (case squeeze_inplace h v of
              Inl e \<Rightarrow> Inl e
            | Inr h' \<Rightarrow> squeeze_loop h' v)
      else Inr h)"
  by pat_completeness auto
termination
  by (relation "measure (\<lambda>(h, v). length (shape (tensor_at h v)))")
     (auto simp: squeeze_inplace_def squeeze_0_def split: if_splits)

declare squeeze_loop.simps [simp del]

text \<open>One round of the outer loop, up to the squeezed \<open>value\<close>.\<close>

definition sum_to_entry ::
  "frame set \<Rightarrow> heap \<Rightarrow> frame list \<times> nat \<Rightarrow> error + (nat \<times> heap)" where
  "sum_to_entry target_frames h entry =
     (case entry of (frames, v) \<Rightarrow>
        bind (reduce_frames target_frames frames h v) (\<lambda>(v', h').
          bind (squeeze_loop h' v') (\<lambda>h''. Inr (v', h''))))"

text \<open>\<open>total = value if total is None else total + value\<close>, round after round.\<close>

fun sum_to_loop ::
  "frame set \<Rightarrow> mft_refs \<Rightarrow> heap \<Rightarrow> nat option \<Rightarrow> error + (nat option \<times> heap)" where
  "sum_to_loop target_frames [] h acc = Inr (acc, h)"
| "sum_to_loop target_frames (entry # rest) h acc =
     bind (sum_to_entry target_frames h entry) (\<lambda>(v, h1).
       bind (case acc of
               None \<Rightarrow> Inr (v, h1)
             | Some t \<Rightarrow>
                 bind (tadd (tensor_at h1 t) (tensor_at h1 v)) (\<lambda>s.
                   Inr (alloc h1
                          (derived (requires_grad (obj h1 t) \<or> requires_grad (obj h1 v)) s))))
         (\<lambda>(acc', h2). sum_to_loop target_frames rest h2 (Some acc')))"

text \<open>\<open>sum_to\<close> returns a reference to the total (None for an empty dict) and the heap
  as it leaves it.\<close>

definition sum_to :: "heap \<Rightarrow> mft_refs \<Rightarrow> frame set \<Rightarrow> error + (nat option \<times> heap)" where
  "sum_to h self target_frames = sum_to_loop target_frames self h None"

section \<open>Python values and dicts\<close>

text \<open>A factor, a weight or a cost is a Python number or a tensor.\<close>

datatype pyval = Num real | Ten "dual tensor"

text \<open>
  Modelled from the spec: \<open>is_identically_zero\<close> is defined outside the source shown.
  The exact-zero marker is the number zero; a tensor is never identically zero,
  whatever its entries.
\<close>

definition is_identically_zero :: "pyval \<Rightarrow> bool" where
  "is_identically_zero x = (case x of Num r \<Rightarrow> r = 0 | Ten t \<Rightarrow> False)"

definition torch_exp :: "pyval \<Rightarrow> pyval" where
  "torch_exp x = (case x of Ten t \<Rightarrow> Ten (tmap dexp t) | Num r \<Rightarrow> Num (exp r))"

text \<open>\<open>math.log\<close> of an integer raises ValueError outside its domain.\<close>

definition math_log :: "int \<Rightarrow> error + real" where
  "math_log n = (if n \<le> 0 then Inl ValueError else Inr (ln (real_of_int n)))"

definition tdetach :: "dual tensor \<Rightarrow> dual tensor" where
  "tdetach t = tmap ddetach t"

definition tsub :: "dual tensor \<Rightarrow> dual tensor \<Rightarrow> error + dual tensor" where
  "tsub = tbinop (-)"

definition tmul :: "dual tensor \<Rightarrow> dual tensor \<Rightarrow> error + dual tensor" where
  "tmul = tbinop (*)"

text \<open>\<open>t.sum()\<close>: the sum of all entries, a tensor of rank zero.\<close>

definition tsum_all :: "dual tensor \<Rightarrow> dual tensor" where
  "tsum_all t = scalar (sum_list (data t))"

text \<open>The operators \<open>*\<close> and \<open>+\<close> on numbers and tensors.\<close>

fun vmul :: "pyval \<Rightarrow> pyval \<Rightarrow> error + pyval" where
  "vmul (Num x) (Num y) = Inr (Num (x * y))"
| "vmul (Num x) (Ten t) = Inr (Ten (tmap (\<lambda>e. dconst x * e) t))"
| "vmul (Ten s) (Num y) = Inr (Ten (tmap (\<lambda>e. e * dconst y) s))"
| "vmul (Ten s) (Ten t) = bind (tmul s t) (\<lambda>r. Inr (Ten r))"

fun vadd :: "pyval \<Rightarrow> pyval \<Rightarrow> error + pyval" where
  "vadd (Num x) (Num y) = Inr (Num (x + y))"
| "vadd (Num x) (Ten t) = Inr (Ten (tmap (\<lambda>e. dconst x + e) t))"
| "vadd (Ten s) (Num y) = Inr (Ten (tmap (\<lambda>e. e + dconst y) s))"
| "vadd (Ten s) (Ten t) = bind (tadd s t) (\<lambda>r. Inr (Ten r))"

text \<open>
  A dict is an association list in insertion order with one pair per key: a store to an
  existing key keeps its place, a new key goes last.
\<close>

fun dict_set :: "('k \<times> 'v) list \<Rightarrow> 'k \<Rightarrow> 'v \<Rightarrow> ('k \<times> 'v) list" where
  "dict_set [] k v = [(k, v)]"
| "dict_set ((k', w) # rest) k v =
     (if k' = k then (k', v) # rest else (k', w) # dict_set rest k v)"

text \<open>Reading a \<open>defaultdict\<close>: a missing key reads as the default.\<close>

definition dict_default :: "('k \<times> 'v) list \<Rightarrow> 'k \<Rightarrow> 'v \<Rightarrow> 'v" where
  "dict_default m k dflt = (case map_of m k of None \<Rightarrow> dflt | Some v \<Rightarrow> v)"

text \<open>\<open>d[k].append(x)\<close> on a \<open>defaultdict(list)\<close>.\<close>

definition dict_append :: "('k \<times> 'v list) list \<Rightarrow> 'k \<Rightarrow> 'v \<Rightarrow> ('k \<times> 'v list) list" where
  "dict_append m k x = dict_set m k (dict_default m k [] @ [x])"

section \<open>Dice\<close>

subsection \<open>The trace\<close>

text \<open>
  A site of the guide trace, with the entries the constructor reads: \<open>site["type"]\<close>,
  \<open>site['score_parts'].score_function\<close>, \<open>site["infer"].get("enumerate")\<close> and
  \<open>site["infer"]["_enum_total"]\<close> (None when the key is missing).  The trace is the
  ordered dict \<open>guide_trace.nodes\<close>; \<open>ordering\<close> is a dict from site names to ordinals.
  An ordinal is a frozenset, compared by inclusion.
\<close>

record site =
  site_type :: string
  score_function :: pyval
  infer_enumerate :: "string option"
  infer_enum_total :: "int option"

text \<open>Python truthiness of what \<open>.get("enumerate")\<close> returns.\<close>

definition truthy :: "string option \<Rightarrow> bool" where
  "truthy x = (case x of None \<Rightarrow> False | Some s \<Rightarrow> s \<noteq> [])"

text \<open>
  The identity (\<open>id\<close>) of a factor object.  The log-weight term appended for a site is
  one object, named here by the site; the denominator factor \<open>-log_denom\<close> is a fresh
  number for each target ordinal.
\<close>

datatype 'o ident = SiteTerm string | Denom "'o set"

type_synonym 'o factor = "'o ident \<times> pyval"

record 'o Dice =
  log_denom :: "('o set \<times> real) list"
  log_probs :: "('o set \<times> 'o factor list) list"
  log_factors_cache :: "('o set \<times> 'o factor list) list"
  prob_cache :: "((nat list \<times> 'o set) \<times> pyval) list"

subsection \<open>The constructor\<close>

text \<open>One round of the loop over the sites, on the two dicts under construction.\<close>

definition init_site ::
  "(string \<rightharpoonup> 'o set) \<Rightarrow> ('o set \<times> real) list \<times> ('o set \<times> 'o factor list) list \<Rightarrow>
   string \<times> site \<Rightarrow> error + (('o set \<times> real) list \<times> ('o set \<times> 'o factor list) list)" where
  "init_site ordering' dicts node =
     (case (dicts, node) of ((ld, lp), (nm, s)) \<Rightarrow>
        if site_type s \<noteq> ''sample'' then Inr (ld, lp)
        else if is_identically_zero (score_function s) then Inr (ld, lp)
        else (case ordering' nm of
                None \<Rightarrow> Inl KeyError
              | Some ordinal \<Rightarrow>
                  if truthy (infer_enumerate s)
                  then (if infer_enumerate s = Some ''sequential''
                        then (case infer_enum_total s of
                                None \<Rightarrow> Inl KeyError
                              | Some n \<Rightarrow>
                                  bind (math_log n) (\<lambda>l.
                                    Inr (dict_set ld ordinal (dict_default ld ordinal 0 + l),
                                         dict_append lp ordinal (SiteTerm nm, score_function s))))
                        else Inr (ld, dict_append lp ordinal (SiteTerm nm, score_function s)))
                  else (case score_function s of
                          Num r \<Rightarrow> Inl AttributeError
                        | Ten t \<Rightarrow>
                            bind (tsub t (tdetach t)) (\<lambda>log_prob.
                              Inr (ld, dict_append lp ordinal (SiteTerm nm, Ten log_prob))))))"

fun init_loop ::
  "(string \<rightharpoonup> 'o set) \<Rightarrow> ('o set \<times> real) list \<times> ('o set \<times> 'o factor list) list \<Rightarrow>
   (string \<times> site) list \<Rightarrow> error + (('o set \<times> real) list \<times> ('o set \<times> 'o factor list) list)" where
  "init_loop ordering' dicts [] = Inr dicts"
| "init_loop ordering' dicts (node # nodes) =
     bind (init_site ordering' dicts node) (\<lambda>dicts'. init_loop ordering' dicts' nodes)"

definition Dice_init :: "(string \<times> site) list \<Rightarrow> (string \<rightharpoonup> 'o set) \<Rightarrow> error + 'o Dice" where
  "Dice_init guide_trace ordering' =
     bind (init_loop ordering' ([], []) guide_trace) (\<lambda>(ld, lp).
       Inr \<lparr>log_denom = ld, log_probs = lp, log_factors_cache = [], prob_cache = []\<rparr>)"

subsection \<open>The factors at an ordinal\<close>

text \<open>The two loops of \<open>_get_log_factors\<close>, over the items of the two dicts.\<close>

fun denom_loop :: "('o set \<times> real) list \<Rightarrow> 'o set \<Rightarrow> real \<Rightarrow> real" where
  "denom_loop [] target_ordinal acc = acc"
| "denom_loop ((ordinal, t) # rest) target_ordinal acc =
     (if \<not> ordinal \<subseteq> target_ordinal
      then denom_loop rest target_ordinal (acc + t)
      else denom_loop rest target_ordinal acc)"

fun probs_loop ::
  "('o set \<times> 'o factor list) list \<Rightarrow> 'o set \<Rightarrow> 'o factor list \<Rightarrow> 'o factor list" where
  "probs_loop [] target_ordinal log_factors = log_factors"
| "probs_loop ((ordinal, ts) # rest) target_ordinal log_factors =
     (if ordinal \<subseteq> target_ordinal
      then probs_loop rest target_ordinal (log_factors @ ts)
      else probs_loop rest target_ordinal log_factors)"

definition compute_log_factors :: "'o Dice \<Rightarrow> 'o set \<Rightarrow> 'o factor list" where
  "compute_log_factors self target_ordinal =
     (let ld = denom_loop (log_denom self) target_ordinal 0;
          log_factors =
            (if is_identically_zero (Num ld) then [] else [(Denom target_ordinal, Num (- ld))])
      in probs_loop (log_probs self) target_ordinal log_factors)"

text \<open>\<open>_get_log_factors\<close>, memoized: the list returned and the builder with its cache.\<close>

definition get_log_factors :: "'o Dice \<Rightarrow> 'o set \<Rightarrow> 'o factor list \<times> 'o Dice" where
  "get_log_factors self target_ordinal =
     (case map_of (log_factors_cache self) target_ordinal of
        Some log_factors \<Rightarrow> (log_factors, self)
      | None \<Rightarrow>
          let log_factors = compute_log_factors self target_ordinal
          in (log_factors,
              self\<lparr>log_factors_cache :=
                     dict_set (log_factors_cache self) target_ordinal log_factors\<rparr>))"

subsection \<open>The weight at an ordinal\<close>

text \<open>
  Modelled from the spec: \<open>sumproduct\<close> is defined outside the source shown.  It
  multiplies the factors (an empty list gives the weight 1) and sums the product down
  to the target shape: the leading axes the target does not have are summed away, and
  an axis whose extent exceeds the target's is summed to extent one.
\<close>

fun multiply_all :: "pyval \<Rightarrow> pyval list \<Rightarrow> error + pyval" where
  "multiply_all acc [] = Inr acc"
| "multiply_all acc (f # fs) = bind (vmul acc f) (\<lambda>acc'. multiply_all acc' fs)"

fun sum_leading :: "nat \<Rightarrow> dual tensor \<Rightarrow> dual tensor" where
  "sum_leading 0 t = t"
| "sum_leading (Suc n) t = sum_leading n (squeeze_0 (sum_dim 0 t))"

definition sum_down :: "dual tensor \<Rightarrow> nat list \<Rightarrow> dual tensor" where
  "sum_down t target_shape =
     (let u = sum_leading (length (shape t) - length target_shape) t;
          aligned = drop (length target_shape - length (shape u)) target_shape
      in fold (\<lambda>k w. if aligned ! k < shape w ! k then sum_dim k w else w)
           [0..<length (shape u)] u)"

definition sumproduct :: "pyval list \<Rightarrow> nat list \<Rightarrow> error + pyval" where
  "sumproduct factors target_shape =
     bind (multiply_all (Num 1) factors) (\<lambda>p.
       case p of Num r \<Rightarrow> Inr (Num r) | Ten t \<Rightarrow> Inr (Ten (sum_down t target_shape)))"

text \<open>\<open>while shape and shape[0] == 1: shape = shape[1:]\<close>\<close>

fun strip_shape :: "nat list \<Rightarrow> nat list" where
  "strip_shape [] = []"
| "strip_shape (n # ns) = (if n = 1 then strip_shape ns else n # ns)"

definition in_context :: "'o Dice \<Rightarrow> nat list \<Rightarrow> 'o set \<Rightarrow> error + (pyval \<times> 'o Dice)" where
  "in_context self shp ordinal =
     (let shp' = strip_shape shp in
      case map_of (prob_cache self) (shp', ordinal) of
        Some dice_prob \<Rightarrow> Inr (dice_prob, self)
      | None \<Rightarrow>
          (case get_log_factors self ordinal of (log_factors, self') \<Rightarrow>
             let factors = map (\<lambda>f. torch_exp (snd f)) log_factors
             in bind (sumproduct factors shp') (\<lambda>dice_prob.
                  Inr (dice_prob,
                       self'\<lparr>prob_cache :=
                               dict_set (prob_cache self') (shp', ordinal) dice_prob\<rparr>))))"

subsection \<open>The expectation\<close>

text \<open>\<open>broadcast_all(cost, prob, mask)\<close>: the three tensors expanded to their common
  shape.\<close>

definition broadcast_all ::
  "dual tensor \<Rightarrow> dual tensor \<Rightarrow> bool tensor \<Rightarrow>
   error + (dual tensor \<times> dual tensor \<times> bool tensor)" where
  "broadcast_all cost prob msk =
     (case broadcast_shapes (shape cost) (shape prob) of
        None \<Rightarrow> Inl RuntimeError
      | Some s1 \<Rightarrow>
          (case broadcast_shapes s1 (shape msk) of
             None \<Rightarrow> Inl RuntimeError
           | Some s \<Rightarrow>
               Inr (Tensor s (expand cost s), Tensor s (expand prob s),
                    Tensor s (expand msk s))))"

text \<open>\<open>t[mask]\<close>: the entries of \<open>t\<close> where the mask holds, as a tensor of rank one.\<close>

definition masked_select :: "'a tensor \<Rightarrow> bool tensor \<Rightarrow> 'a tensor" where
  "masked_select t msk =
     (let xs = map fst (filter snd (zip (data t) (data msk)))
      in Tensor [length xs] xs)"

text \<open>
  The body that both branches of \<open>compute_expectation\<close> run on a weight and a cost,
  from \<open>mask = prob > 0\<close> to \<open>(prob * cost).sum()\<close>.  On a number, \<open>prob > 0\<close> is a
  Python bool and nothing is masked.
\<close>

definition masked_product :: "pyval \<Rightarrow> dual tensor \<Rightarrow> error + pyval" where
  "masked_product prob cost =
     (case prob of
        Num r \<Rightarrow> bind (vmul (Num r) (Ten cost)) (\<lambda>pc.
                   case pc of Ten t \<Rightarrow> Inr (Ten (tsum_all t)) | Num x \<Rightarrow> Inl AttributeError)
      | Ten p \<Rightarrow>
          let msk = tmap (\<lambda>x. 0 < val x) p in
          if \<not> list_all (\<lambda>b. b) (data msk)
          then bind (broadcast_all cost p msk) (\<lambda>(cost', prob', msk').
                 bind (tmul (masked_select prob' msk') (masked_select cost' msk')) (\<lambda>t.
                   Inr (Ten (tsum_all t))))
          else bind (tmul p cost) (\<lambda>t. Inr (Ten (tsum_all t))))"

text \<open>The first loop of the shared path: the tables \<open>exp_table\<close> (keyed by the identity
  of the log factor) and \<open>factors_table\<close> (keyed by ordinal).\<close>

fun einsum_factors ::
  "'o set \<Rightarrow> ('o ident \<times> pyval) list \<times> ('o set \<times> pyval list) list \<Rightarrow> 'o factor list \<Rightarrow>
   ('o ident \<times> pyval) list \<times> ('o set \<times> pyval list) list" where
  "einsum_factors ordinal tables [] = tables"
| "einsum_factors ordinal (exp_table, factors_table) ((i, log_factor) # rest) =
     (if map_of exp_table i = None
      then (let factor = torch_exp log_factor
            in einsum_factors ordinal
                 (dict_set exp_table i factor, dict_append factors_table ordinal factor) rest)
      else einsum_factors ordinal (exp_table, factors_table) rest)"

fun einsum_tables ::
  "'o Dice \<Rightarrow> ('o ident \<times> pyval) list \<times> ('o set \<times> pyval list) list \<Rightarrow> 'o set list \<Rightarrow>
   (('o ident \<times> pyval) list \<times> ('o set \<times> pyval list) list) \<times> 'o Dice" where
  "einsum_tables self tables [] = (tables, self)"
| "einsum_tables self tables (ordinal # ordinals) =
     (case get_log_factors self ordinal of (log_factors, self') \<Rightarrow>
        einsum_tables self' (einsum_factors ordinal tables log_factors) ordinals)"

text \<open>The second loop of the shared path.\<close>

fun einsum_cost_terms :: "pyval list \<Rightarrow> pyval \<Rightarrow> dual tensor list \<Rightarrow> error + pyval" where
  "einsum_cost_terms factors expected_cost [] = Inr expected_cost"
| "einsum_cost_terms factors expected_cost (cost # cost_terms) =
     bind (sumproduct factors (shape cost)) (\<lambda>prob.
       bind (masked_product prob cost) (\<lambda>pc.
         bind (vadd expected_cost pc) (\<lambda>expected_cost'.
           einsum_cost_terms factors expected_cost' cost_terms)))"

fun einsum_costs ::
  "('o set \<times> pyval list) list \<Rightarrow> pyval \<Rightarrow> ('o set \<times> dual tensor list) list \<Rightarrow> error + pyval"
  where
  "einsum_costs factors_table expected_cost [] = Inr expected_cost"
| "einsum_costs factors_table expected_cost ((ordinal, cost_terms) # costs) =
     bind (einsum_cost_terms (dict_default factors_table ordinal []) expected_cost cost_terms)
       (\<lambda>expected_cost'. einsum_costs factors_table expected_cost' costs)"

text \<open>\<open>sum(cost_terms)\<close> starts from the integer 0.\<close>

fun py_sum :: "pyval \<Rightarrow> dual tensor list \<Rightarrow> error + pyval" where
  "py_sum acc [] = Inr acc"
| "py_sum acc (c # cs) = bind (vadd acc (Ten c)) (\<lambda>acc'. py_sum acc' cs)"

text \<open>The loop of the direct path; \<open>cost.shape\<close> of a number raises AttributeError.\<close>

fun direct_costs ::
  "'o Dice \<Rightarrow> pyval \<Rightarrow> ('o set \<times> dual tensor list) list \<Rightarrow> error + (pyval \<times> 'o Dice)" where
  "direct_costs self expected_cost [] = Inr (expected_cost, self)"
| "direct_costs self expected_cost ((ordinal, cost_terms) # costs) =
     bind (py_sum (Num 0) cost_terms) (\<lambda>total.
       case total of
         Num r \<Rightarrow> Inl AttributeError
       | Ten cost \<Rightarrow>
           bind (in_context self (shape cost) ordinal) (\<lambda>(prob, self').
             bind (masked_product prob cost) (\<lambda>pc.
               bind (vadd expected_cost pc) (\<lambda>expected_cost'.
                 direct_costs self' expected_cost' costs))))"

text \<open>\<open>compute_expectation\<close>: the expected cost and the builder with its caches.\<close>

definition compute_expectation ::
  "'o Dice \<Rightarrow> ('o set \<times> dual tensor list) list \<Rightarrow> bool \<Rightarrow> error + (pyval \<times> 'o Dice)" where
  "compute_expectation self costs use_einsum =
     (if use_einsum
      then (case einsum_tables self ([], []) (map fst costs) of
              ((exp_table, factors_table), self') \<Rightarrow>
                bind (einsum_costs factors_table (Num 0) costs) (\<lambda>expected_cost.
                  Inr (expected_cost, self')))
      else direct_costs self (Num 0) costs)"

section \<open>Specification-level definitions\<close>

subsection \<open>MultiFrameTensor\<close>

text \<open>
  The precondition of \<open>add\<close> as the specification words it: every vectorized frame of
  an entry has a negative axis whose magnitude does not exceed the rank of the tensor.
\<close>

definition addresses_axis :: "frame \<Rightarrow> dual tensor \<Rightarrow> bool" where
  "addresses_axis f v = (dim f < 0 \<and> - dim f \<le> int (length (shape v)))"

definition precondition :: "frame list \<times> dual tensor \<Rightarrow> bool" where
  "precondition item = (\<forall>f\<in>set (fst item). vectorized f \<longrightarrow> addresses_axis f (snd item))"

text \<open>The values that land on key \<open>k\<close>, in the order of the entries, and their
  accumulation by elementwise addition.\<close>

definition same_key :: "frame list \<Rightarrow> frame list \<times> dual tensor \<Rightarrow> bool" where
  "same_key k item = (set (frozen_frames (fst item)) = set k)"

definition values_for :: "frame list \<Rightarrow> (frame list \<times> dual tensor) list \<Rightarrow> dual tensor list" where
  "values_for k items = map snd (filter (same_key k) items)"

fun accumulate :: "dual tensor option \<Rightarrow> dual tensor list \<Rightarrow> error + dual tensor option" where
  "accumulate cur [] = Inr cur"
| "accumulate None (v # vs) = accumulate (Some v) vs"
| "accumulate (Some w) (v # vs) = bind (tadd w v) (\<lambda>s. accumulate (Some s) vs)"

text \<open>The tensors that land on one key can be added: no elementwise addition fails.\<close>

definition compatible :: "mft \<Rightarrow> (frame list \<times> dual tensor) list \<Rightarrow> bool" where
  "compatible self items =
     (\<forall>k. \<exists>r. accumulate (mft_lookup self k) (values_for k items) = Inr r)"


definition strip_ones :: "'a tensor \<Rightarrow> 'a tensor" where
  "strip_ones t = Tensor (dropWhile (\<lambda>n. n = 1) (shape t)) (data t)"

definition leading_one :: "'a tensor \<Rightarrow> bool" where
  "leading_one t = (shape t \<noteq> [] \<and> hd (shape t) = 1)"

definition frozen :: "tobj \<Rightarrow> bool" where
  "frozen x = (is_leaf x \<and> requires_grad x)"



text \<open>The result of \<open>sum_to\<close> read back as a tensor, and the dict of objects it ran on.\<close>

definition returned :: "error + (nat option \<times> heap) \<Rightarrow> error + dual tensor option" where
  "returned res = map_sum id (\<lambda>(r, h). map_option (tensor_at h) r) res"




subsection \<open>Dice\<close>

text \<open>
  What \<open>_get_log_factors\<close> returns, in the words of the specification: the sum of the
  stored log-denominators over the ordinals that are not upstream of or equal to the
  target, and the log-weight terms of the ordinals that are.
\<close>

definition denominator_sum :: "'o Dice \<Rightarrow> 'o set \<Rightarrow> real" where
  "denominator_sum self T = sum_list (map snd (filter (\<lambda>e. \<not> fst e \<subseteq> T) (log_denom self)))"

definition upstream_terms :: "'o Dice \<Rightarrow> 'o set \<Rightarrow> 'o factor list" where
  "upstream_terms self T = concat (map snd (filter (\<lambda>e. fst e \<subseteq> T) (log_probs self)))"

definition log_factors_spec :: "'o Dice \<Rightarrow> 'o set \<Rightarrow> 'o factor list" where
  "log_factors_spec self T =
     (if denominator_sum self T = 0 then [] else [(Denom T, Num (- denominator_sum self T))])
     @ upstream_terms self T"

definition cache_ok :: "'o Dice \<Rightarrow> bool" where
  "cache_ok self =
     (\<forall>T fs. map_of (log_factors_cache self) T = Some fs \<longrightarrow> fs = compute_log_factors self T)"

text \<open>
  The sites that contribute to the builder, and what each contributes.  A site counts as
  Monte-Carlo sampled when its \<open>enumerate\<close> entry is missing or falsy; its term is the
  surrogate of its score-function term, with every value zero and the gradients kept.
\<close>

definition contributes :: "site \<Rightarrow> bool" where
  "contributes s = (site_type s = ''sample'' \<and> \<not> is_identically_zero (score_function s))"

definition sequential :: "site \<Rightarrow> bool" where
  "sequential s = (infer_enumerate s = Some ''sequential'')"

definition monte_carlo :: "site \<Rightarrow> bool" where
  "monte_carlo s = (\<not> truthy (infer_enumerate s))"

definition surrogate :: "dual tensor \<Rightarrow> dual tensor" where
  "surrogate t = tmap (\<lambda>x. Dual 0 (grad x)) t"

definition weight_term :: "site \<Rightarrow> pyval" where
  "weight_term s =
     (if monte_carlo s
      then (case score_function s of Ten t \<Rightarrow> Ten (surrogate t) | Num r \<Rightarrow> Num r)
      else score_function s)"

definition sites_at :: "(string \<rightharpoonup> 'o set) \<Rightarrow> (string \<times> site) list \<Rightarrow> 'o set \<Rightarrow> (string \<times> site) list" where
  "sites_at ordering' tr ordinal =
     filter (\<lambda>node. contributes (snd node) \<and> ordering' (fst node) = Some ordinal) tr"

definition terms_at :: "(string \<rightharpoonup> 'o set) \<Rightarrow> (string \<times> site) list \<Rightarrow> 'o set \<Rightarrow> 'o factor list" where
  "terms_at ordering' tr ordinal =
     map (\<lambda>node. (SiteTerm (fst node), weight_term (snd node))) (sites_at ordering' tr ordinal)"

definition enum_logs :: "(string \<rightharpoonup> 'o set) \<Rightarrow> (string \<times> site) list \<Rightarrow> 'o set \<Rightarrow> real list" where
  "enum_logs ordering' tr ordinal =
     map (\<lambda>node. ln (real_of_int (the (infer_enum_total (snd node)))))
       (filter (\<lambda>node. sequential (snd node)) (sites_at ordering' tr ordinal))"

definition wf_scores :: "(string \<times> site) list \<Rightarrow> bool" where
  "wf_scores tr =
     (\<forall>node\<in>set tr. case score_function (snd node) of Ten t \<Rightarrow> wf_tensor t | Num r \<Rightarrow> True)"



text \<open>
  The expectation in the words of the specification.  A value is well formed when it is
  a number, or a tensor with as many entries as its shape says.  \<open>expected_term\<close> is
  what one weight and one cost contribute: the sum of weight times cost over the entries
  of their common broadcast shape at which the weight is strictly positive; a weight
  that is a number is never masked, and shapes that do not broadcast are an error.
  \<open>add_up\<close> adds contributions from left to right and fails at the first that fails.
\<close>

definition wf_val :: "pyval \<Rightarrow> bool" where
  "wf_val x = (case x of Num r \<Rightarrow> True | Ten t \<Rightarrow> wf_tensor t)"



text \<open>
  The weight at an ordinal for a cost of shape \<open>shp\<close>: the sum-product of the
  exponentiated factors of the ordinal, summed down to the shape.
\<close>

definition realize :: "'o Dice \<Rightarrow> nat list \<Rightarrow> 'o set \<Rightarrow> error + pyval" where
  "realize self shp ordinal =
     sumproduct (map (\<lambda>f. torch_exp (snd f)) (log_factors_spec self ordinal)) (strip_shape shp)"

text \<open>
  The weight \<open>in_context\<close> hands out at an ordinal for a cost of shape \<open>shp\<close>: what the
  memo \<open>_prob_cache\<close> holds for the stripped shape and the ordinal, the realized weight
  when it holds nothing.
\<close>

definition weight_at :: "'o Dice \<Rightarrow> nat list \<Rightarrow> 'o set \<Rightarrow> error + pyval" where
  "weight_at self shp ordinal =
     (case map_of (prob_cache self) (strip_shape shp, ordinal) of
        Some p \<Rightarrow> Inr p
      | None \<Rightarrow> realize self shp ordinal)"




text \<open>
  The builders the methods run on: the memo of the factors holds what the code
  computed, and the stored terms and the memoized weights are well formed, whatever
  their entries.  The constructor returns such a builder, with empty memos, and every
  method keeps it so.
\<close>

definition wf_probs :: "'o Dice \<Rightarrow> bool" where
  "wf_probs self = (\<forall>e\<in>set (log_probs self). \<forall>f\<in>set (snd e). wf_val (snd f))"

definition wf_cache :: "'o Dice \<Rightarrow> bool" where
  "wf_cache self = (\<forall>e\<in>set (prob_cache self). wf_val (snd e))"


definition fair :: "'o Dice \<Rightarrow> bool" where
  "fair self = (cache_ok self \<and> wf_probs self \<and> wf_cache self)"

section \<open>Example inputs\<close>

definition plate_i :: frame where
  "plate_i = \<lparr>name = ''i'', dim = -1, vectorized = True, fsize = 3\<rparr>"


definition plate_bad :: frame where
  "plate_bad = \<lparr>name = ''k'', dim = 0, vectorized = True, fsize = 2\<rparr>"


definition t_13 :: "dual tensor" where
  "t_13 = Tensor [1, 3] (map dconst [10, 20, 30])"

definition t_3 :: "dual tensor" where
  "t_3 = Tensor [3] (map dconst [10, 20, 30])"

definition t_2 :: "dual tensor" where
  "t_2 = Tensor [2] (map dconst [1, 2])"


text \<open>
  The heap that holds the given objects at the references 0, 1, ...; a tensor that does
  not require grad; a leaf tensor that requires grad, such as a parameter.
\<close>

definition heap_of :: "tobj list \<Rightarrow> heap" where
  "heap_of xs =
     \<lparr>obj = (\<lambda>r. if r < length xs then xs ! r else derived False (scalar 0)),
      next_ref = length xs\<rparr>"

definition plain :: "dual tensor \<Rightarrow> tobj" where
  "plain t = \<lparr>payload = t, requires_grad = False, is_leaf = True\<rparr>"

definition leaf_grad :: "dual tensor \<Rightarrow> tobj" where
  "leaf_grad t = \<lparr>payload = t, requires_grad = True, is_leaf = True\<rparr>"

definition site_mc :: site where
  "site_mc = \<lparr>site_type = ''sample'', score_function = Ten (scalar (Dual (-1) 2)),
               infer_enumerate = None, infer_enum_total = None\<rparr>"

definition site_seq :: site where
  "site_seq = \<lparr>site_type = ''sample'', score_function = Ten (scalar (Dual (-2) 5)),
                infer_enumerate = Some ''sequential'', infer_enum_total = Some 3\<rparr>"

definition site_param :: site where
  "site_param = \<lparr>site_type = ''param'', score_function = Num 0,
                  infer_enumerate = None, infer_enum_total = None\<rparr>"

definition site_no_total :: site where
  "site_no_total = \<lparr>site_type = ''sample'', score_function = Ten (scalar (Dual (-2) 5)),
                     infer_enumerate = Some ''sequential'', infer_enum_total = None\<rparr>"

definition example_trace :: "(string \<times> site) list" where
  "example_trace = [(''w'', site_param), (''x'', site_mc), (''y'', site_seq)]"

definition example_ordering :: "string \<rightharpoonup> string set" where
  "example_ordering = map_of [(''w'', {}), (''x'', {}), (''y'', {''i''}), (''z'', {})]"

definition example_dice :: "string Dice" where
  "example_dice =
     \<lparr>log_denom = [({''i''}, ln 3)],
      log_probs = [({}, [(SiteTerm ''x'', Ten (scalar (Dual 0 2)))]),
                   ({''i''}, [(SiteTerm ''y'', Ten (scalar (Dual (-2) 5)))])],
      log_factors_cache = [], prob_cache = []\<rparr>"

definition site_par :: site where
  "site_par = \<lparr>site_type = ''sample'', score_function = Ten (scalar (Dual (ln (1 / 2)) 0)),
                infer_enumerate = Some ''parallel'', infer_enum_total = None\<rparr>"

definition site_certain :: site where
  "site_certain = \<lparr>site_type = ''sample'', score_function = Ten (scalar (Dual 0 2)),
                    infer_enumerate = Some ''parallel'', infer_enum_total = None\<rparr>"

definition site_empty_enum :: site where
  "site_empty_enum = \<lparr>site_type = ''sample'', score_function = Ten (scalar (Dual (-1) 2)),
                       infer_enumerate = Some [], infer_enum_total = None\<rparr>"

definition dice_par :: "string Dice" where
  "dice_par =
     \<lparr>log_denom = [],
      log_probs = [({}, [(SiteTerm ''z'', Ten (scalar (Dual (ln (1 / 2)) 0)))])],
      log_factors_cache = [], prob_cache = []\<rparr>"

definition dice_certain :: "string Dice" where
  "dice_certain =
     \<lparr>log_denom = [],
      log_probs = [({}, [(SiteTerm ''z'', Ten (scalar (Dual 0 2)))])],
      log_factors_cache = [], prob_cache = []\<rparr>"

definition costs_two :: "(string set \<times> dual tensor list) list" where
  "costs_two = [({}, [scalar (dconst 1)]), ({''i''}, [scalar (dconst 1)])]"




section \<open>Lemmas\<close>

lemma bind_Inr [simp]: "bind (Inr x) f = f x"
  by (simp add: bind_def)

lemma bind_Inl [simp]: "bind (Inl e) f = Inl e"
  by (simp add: bind_def)

lemma bind_eq_Inr: "bind m f = Inr y \<longleftrightarrow> (\<exists>x. m = Inr x \<and> f x = Inr y)"
  by (cases m) auto

lemma bind_eq_Inl: "bind m f = Inl e \<longleftrightarrow> m = Inl e \<or> (\<exists>x. m = Inr x \<and> f x = Inl e)"
  by (cases m) auto

lemma mft_lookup_cong: "set k = set k' \<Longrightarrow> mft_lookup m k = mft_lookup m k'"
  by (induction m) auto

lemma mft_lookup_store:
  "mft_lookup (mft_store m k v) k' = (if set k = set k' then Some v else mft_lookup m k')"
proof (induction m)
  case Nil
  show ?case by simp
next
  case (Cons p m)
  obtain a b where p: "p = (a, b)" by (cases p)
  show ?case
  proof (cases "set a = set k")
    case True
    then show ?thesis using p by simp
  next
    case False
    then have "set a = set k' \<Longrightarrow> set k \<noteq> set k'" by auto
    then show ?thesis using False p Cons by auto
  qed
qed

lemma tadd_error: "tadd w v = Inl e \<Longrightarrow> e = RuntimeError"
  by (auto simp: tadd_def tbinop_def split: option.splits)

lemma precondition_iff:
  "precondition (st, v) \<longleftrightarrow> list_all (frame_ok v) (frozen_frames st)"
  by (auto simp: precondition_def addresses_axis_def frame_ok_def frozen_frames_def list_all_iff)

lemma add_item_bad: "\<not> precondition item \<Longrightarrow> add_item self item = Inl AssertionError"
  by (cases item) (simp add: add_item_def precondition_iff)

lemma add_item_ok:
  "precondition (st, v) \<Longrightarrow>
   add_item self (st, v) =
     (case mft_lookup self (frozen_frames st) of
        Some w \<Rightarrow> bind (tadd w v) (\<lambda>s. Inr (mft_store self (frozen_frames st) s))
      | None \<Rightarrow> Inr (mft_store self (frozen_frames st) v))"
  by (simp add: add_item_def precondition_iff Let_def)

lemma add_item_not_assert:
  "precondition item \<Longrightarrow> add_item self item \<noteq> Inl AssertionError"
  by (cases item) (auto simp: add_item_ok bind_eq_Inl split: option.splits dest: tadd_error)

lemma values_for_Cons:
  "values_for k ((st, v) # items) =
     (if set (frozen_frames st) = set k then v # values_for k items else values_for k items)"
  by (simp add: values_for_def same_key_def)

lemma add_item_accumulate:
  assumes "add_item self item = Inr s1"
  shows "accumulate (mft_lookup self k) (values_for k (item # items)) =
         accumulate (mft_lookup s1 k) (values_for k items)"
proof -
  obtain st v where item: "item = (st, v)" by (cases item)
  have ok: "precondition (st, v)"
    using assms add_item_bad [of item self] item by auto
  note eq = assms [unfolded item add_item_ok [OF ok]]
  show ?thesis
  proof (cases "set (frozen_frames st) = set k")
    case True
    have look: "mft_lookup self k = mft_lookup self (frozen_frames st)"
      by (rule mft_lookup_cong) (simp add: True)
    show ?thesis
    proof (cases "mft_lookup self (frozen_frames st)")
      case None
      then have s1: "s1 = mft_store self (frozen_frames st) v"
        using eq by simp
      have "mft_lookup s1 k = Some v"
        unfolding s1 mft_lookup_store using True by simp
      then show ?thesis
        unfolding item values_for_Cons look None using True by simp
    next
      case (Some w)
      then obtain s where s: "tadd w v = Inr s" "s1 = mft_store self (frozen_frames st) s"
        using eq by (auto simp: bind_eq_Inr)
      have "mft_lookup s1 k = Some s"
        unfolding s(2) mft_lookup_store using True by simp
      then show ?thesis
        unfolding item values_for_Cons look Some using True s(1) by simp
    qed
  next
    case False
    have "\<exists>x. s1 = mft_store self (frozen_frames st) x"
      using eq by (cases "mft_lookup self (frozen_frames st)") (auto simp: bind_eq_Inr)
    then obtain x where s1: "s1 = mft_store self (frozen_frames st) x" by blast
    have "mft_lookup s1 k = mft_lookup self k"
      unfolding s1 mft_lookup_store using False by simp
    then show ?thesis
      unfolding item values_for_Cons using False by simp
  qed
qed

lemma add_item_succeeds:
  assumes "precondition item"
    and "accumulate (mft_lookup self (frozen_frames (fst item)))
           (values_for (frozen_frames (fst item)) (item # items)) = Inr r"
  shows "\<exists>s1. add_item self item = Inr s1"
proof -
  obtain st v where item: "item = (st, v)" by (cases item)
  show ?thesis
  proof (cases "mft_lookup self (frozen_frames st)")
    case None
    then show ?thesis using assms(1) item by (simp add: add_item_ok)
  next
    case (Some w)
    then have "bind (tadd w v) (\<lambda>s. accumulate (Some s)
                 (values_for (frozen_frames st) items)) = Inr r"
      using assms(2) item by (simp add: values_for_def same_key_def)
    then obtain s where "tadd w v = Inr s" by (auto simp: bind_eq_Inr)
    then show ?thesis using assms(1) item Some by (simp add: add_item_ok)
  qed
qed

lemma add_stored:
  "add self items = Inr self' \<Longrightarrow>
   accumulate (mft_lookup self k) (values_for k items) = Inr (mft_lookup self' k)"
proof (induction items arbitrary: self)
  case Nil
  then show ?case by (simp add: values_for_def)
next
  case (Cons item items)
  then obtain s1 where s1: "add_item self item = Inr s1" "add s1 items = Inr self'"
    by (auto simp: bind_eq_Inr)
  show ?case
    using Cons.IH [OF s1(2)] add_item_accumulate [OF s1(1)] by simp
qed

lemma add_assert_only_if:
  "add self items = Inl AssertionError \<Longrightarrow> \<exists>item\<in>set items. \<not> precondition item"
proof (induction items arbitrary: self)
  case Nil
  then show ?case by simp
next
  case (Cons item items)
  then show ?case
    using add_item_not_assert [of item self] by (auto simp: bind_eq_Inl)
qed

lemma add_bad_fails:
  "\<exists>item\<in>set items. \<not> precondition item \<Longrightarrow> \<exists>e. add self items = Inl e"
proof (induction items arbitrary: self)
  case Nil
  then show ?case by simp
next
  case (Cons item items)
  show ?case
  proof (cases "add_item self item")
    case (Inl e)
    then show ?thesis by simp
  next
    case (Inr s1)
    then have "precondition item" using add_item_bad [of item self] by auto
    then show ?thesis using Cons Inr by auto
  qed
qed

lemma compatible_step:
  "compatible self (item # items) \<Longrightarrow> add_item self item = Inr s1 \<Longrightarrow> compatible s1 items"
  unfolding compatible_def
proof (intro allI)
  fix k
  assume c: "\<forall>k. \<exists>r. accumulate (mft_lookup self k) (values_for k (item # items)) = Inr r"
    and s1: "add_item self item = Inr s1"
  from c obtain r where "accumulate (mft_lookup self k) (values_for k (item # items)) = Inr r"
    by blast
  then show "\<exists>r. accumulate (mft_lookup s1 k) (values_for k items) = Inr r"
    using add_item_accumulate [OF s1, of k items] by simp
qed

lemma add_bad_asserts:
  "\<exists>item\<in>set items. \<not> precondition item \<Longrightarrow> compatible self items \<Longrightarrow>
   add self items = Inl AssertionError"
proof (induction items arbitrary: self)
  case Nil
  then show ?case by simp
next
  case (Cons item items)
  show ?case
  proof (cases "precondition item")
    case False
    then show ?thesis by (simp add: add_item_bad)
  next
    case True
    obtain r where "accumulate (mft_lookup self (frozen_frames (fst item)))
           (values_for (frozen_frames (fst item)) (item # items)) = Inr r"
      using Cons.prems(2) unfolding compatible_def by blast
    then obtain s1 where s1: "add_item self item = Inr s1"
      using add_item_succeeds [OF True] by blast
    then show ?thesis
      using Cons True compatible_step [OF Cons.prems(2) s1] by auto
  qed
qed

lemma add_succeeds:
  "\<forall>item\<in>set items. precondition item \<Longrightarrow> compatible self items \<Longrightarrow>
   \<exists>self'. add self items = Inr self'"
proof (induction items arbitrary: self)
  case Nil
  then show ?case by simp
next
  case (Cons item items)
  obtain r where "accumulate (mft_lookup self (frozen_frames (fst item)))
         (values_for (frozen_frames (fst item)) (item # items)) = Inr r"
    using Cons.prems(2) unfolding compatible_def by blast
  moreover have "precondition item" using Cons.prems(1) by simp
  ultimately obtain s1 where s1: "add_item self item = Inr s1"
    using add_item_succeeds by blast
  then show ?case
    using Cons compatible_step [OF Cons.prems(2) s1] by auto
qed

lemma add_single_key:
  "\<forall>item\<in>set items. same_key K item \<Longrightarrow> set k0 = set K \<Longrightarrow>
   add [(k0, w)] items = Inr self \<Longrightarrow>
   \<exists>S. self = [(k0, S)] \<and> accumulate (Some w) (map snd items) = Inr (Some S)"
proof (induction items arbitrary: w)
  case Nil
  then show ?case by simp
next
  case (Cons item items)
  obtain st v where item: "item = (st, v)" by (cases item)
  obtain s1 where s1: "add_item [(k0, w)] item = Inr s1" "add s1 items = Inr self"
    using Cons.prems(3) by (auto simp: bind_eq_Inr)
  have ok: "precondition (st, v)"
    using s1(1) add_item_bad [of item "[(k0, w)]"] item by auto
  have key: "set k0 = set (frozen_frames st)"
    using Cons.prems(1,2) item by (simp add: same_key_def)
  then obtain s where s: "tadd w v = Inr s" "s1 = [(k0, s)]"
    using s1(1) item by (auto simp: add_item_ok [OF ok] bind_eq_Inr)
  obtain S where "self = [(k0, S)]" "accumulate (Some s) (map snd items) = Inr (Some S)"
    using Cons.IH [of s] Cons.prems(1,2) s1(2) s(2) by auto
  then show ?case using s(1) item by simp
qed

lemma length_indices: "idx \<in> set (indices s) \<Longrightarrow> length idx = length s"
  by (induction s arbitrary: idx) auto

lemma concat_blocks:
  "concat (map (\<lambda>i. map (\<lambda>j. i * p + j) [0..<p]) [0..<n]) = [0..<n * p]"
proof (induction n)
  case 0
  show ?case by simp
next
  case (Suc n)
  have "map (\<lambda>j. n * p + j) [0..<p] = [n * p..<n * p + p]"
    using map_add_upt [of "n * p" p] by (simp add: add.commute)
  moreover have "[0..<n * p + p] = [0..<n * p] @ [n * p..<n * p + p]"
    using upt_add_eq_append [of 0 "n * p" p] by simp
  ultimately show ?case
    using Suc by (simp add: add.commute)
qed

lemma offset_indices: "map (offset s) (indices s) = [0..<prod_list s]"
proof (induction s)
  case Nil
  show ?case by simp
next
  case (Cons n ns)
  have inner: "map (offset (n # ns)) (map ((#) i) (indices ns)) =
        map (\<lambda>j. i * prod_list ns + j) [0..<prod_list ns]" if "i < n" for i
  proof -
    have "(if n = 1 then 0 else i) = i" using that by auto
    then have "map (offset (n # ns)) (map ((#) i) (indices ns)) =
          map (\<lambda>j. i * prod_list ns + j) (map (offset ns) (indices ns))"
      by simp
    then show ?thesis using Cons by simp
  qed
  have "map (offset (n # ns)) (indices (n # ns)) =
        concat (map (\<lambda>i. map (offset (n # ns)) (map ((#) i) (indices ns))) [0..<n])"
    by (simp add: map_concat comp_def)
  also have "\<dots> = concat (map (\<lambda>i. map (\<lambda>j. i * prod_list ns + j) [0..<prod_list ns]) [0..<n])"
    using inner by (intro arg_cong [where f = concat] map_cong) auto
  finally show ?case by (simp add: concat_blocks)
qed

lemma expand_self: "wf_tensor t \<Longrightarrow> expand t (shape t) = data t"
proof -
  assume wf: "wf_tensor t"
  have "expand t (shape t) = map (\<lambda>idx. data t ! offset (shape t) idx) (indices (shape t))"
    unfolding expand_def by (intro map_cong) (auto simp: bc_offset_def length_indices)
  also have "\<dots> = map ((!) (data t)) (map (offset (shape t)) (indices (shape t)))"
    by simp
  also have "\<dots> = map ((!) (data t)) [0..<length (data t)]"
    using wf by (simp only: offset_indices wf_tensor_def)
  finally show ?thesis by (simp add: map_nth)
qed

lemma broadcast_rev_same: "broadcast_rev s s = Some s"
  by (induction s) (auto simp: broadcast_dim_def)

lemma broadcast_shapes_same: "broadcast_shapes s s = Some s"
  by (simp add: broadcast_shapes_def broadcast_rev_same)

lemma tbinop_same_shape:
  "wf_tensor a \<Longrightarrow> wf_tensor b \<Longrightarrow> shape a = shape b \<Longrightarrow>
   tbinop f a b = Inr (Tensor (shape a) (map (\<lambda>(x, y). f x y) (zip (data a) (data b))))"
  using expand_self [of a] expand_self [of b]
  by (simp add: tbinop_def broadcast_shapes_same)

lemma map_of_dict_set: "map_of (dict_set m k v) = (map_of m)(k \<mapsto> v)"
  by (induction m) (auto simp: fun_eq_iff)

lemma denom_loop_sum:
  "denom_loop xs T acc = acc + sum_list (map snd (filter (\<lambda>e. \<not> fst e \<subseteq> T) xs))"
  by (induction xs T acc rule: denom_loop.induct) auto

lemma probs_loop_concat:
  "probs_loop xs T fs = fs @ concat (map snd (filter (\<lambda>e. fst e \<subseteq> T) xs))"
  by (induction xs T fs rule: probs_loop.induct) auto

lemma compute_log_factors_spec: "compute_log_factors self T = log_factors_spec self T"
  by (simp add: compute_log_factors_def log_factors_spec_def denominator_sum_def
      upstream_terms_def denom_loop_sum probs_loop_concat is_identically_zero_def Let_def)

lemma compute_log_factors_cache:
  "compute_log_factors (self\<lparr>log_factors_cache := c\<rparr>) T = compute_log_factors self T"
  by (simp add: compute_log_factors_def)

lemma get_log_factors_fst:
  "cache_ok self \<Longrightarrow> fst (get_log_factors self T) = log_factors_spec self T"
  by (auto simp: get_log_factors_def cache_ok_def compute_log_factors_spec Let_def
      split: option.splits)

lemma get_log_factors_cache_ok:
  "cache_ok self \<Longrightarrow> cache_ok (snd (get_log_factors self T))"
  by (auto simp: get_log_factors_def cache_ok_def Let_def map_of_dict_set
      compute_log_factors_cache split: option.splits)

lemma get_log_factors_dicts:
  "log_denom (snd (get_log_factors self T)) = log_denom self \<and>
   log_probs (snd (get_log_factors self T)) = log_probs self"
  by (auto simp: get_log_factors_def Let_def split: option.splits)

lemma Dice_init_cache:
  "Dice_init tr ord = Inr d \<Longrightarrow> log_factors_cache d = [] \<and> prob_cache d = []"
  by (auto simp: Dice_init_def bind_eq_Inr)

lemma Dice_init_cache_ok: "Dice_init tr ord = Inr d \<Longrightarrow> cache_ok d"
  using Dice_init_cache [of tr ord d] by (simp add: cache_ok_def)

lemma upstream_terms_member:
  "(ordinal, ts) \<in> set (log_probs self) \<Longrightarrow> ordinal \<subseteq> T \<Longrightarrow> f \<in> set ts \<Longrightarrow>
   f \<in> set (log_factors_spec self T)"
  by (force simp: log_factors_spec_def upstream_terms_def)

lemma subseq_concat_filter:
  "(\<And>x. P x \<Longrightarrow> Q x) \<Longrightarrow>
   subseq (concat (map g (filter P xs))) (concat (map g (filter Q xs)))"
proof (induction xs)
  case Nil
  show ?case by simp
next
  case (Cons x xs)
  then have ih: "subseq (concat (map g (filter P xs))) (concat (map g (filter Q xs)))"
    by simp
  show ?case
  proof (cases "P x")
    case True
    then have "Q x" using Cons.prems by simp
    then show ?thesis using True ih by (simp add: list_emb_append_mono)
  next
    case False
    then show ?thesis using ih by (simp add: list_emb_append2)
  qed
qed

lemma subseq_upstream_terms:
  "A \<subseteq> B \<Longrightarrow> subseq (upstream_terms self A) (upstream_terms self B)"
  unfolding upstream_terms_def by (rule subseq_concat_filter) auto

lemma wf_tdetach: "wf_tensor t \<Longrightarrow> wf_tensor (tdetach t)"
  by (simp add: wf_tensor_def tdetach_def tmap_def)

lemma tsub_detach: "wf_tensor t \<Longrightarrow> tsub t (tdetach t) = Inr (surrogate t)"
proof -
  assume wf: "wf_tensor t"
  have "map (\<lambda>(x, y). x - y) (zip xs (map ddetach xs)) = map (\<lambda>x. Dual 0 (grad x)) xs"
    for xs :: "dual list"
    by (induction xs) (auto simp: minus_dual_def ddetach_def)
  then show ?thesis
    using tbinop_same_shape [OF wf wf_tdetach [OF wf], of "(-)"]
    by (simp add: tsub_def tdetach_def tmap_def surrogate_def)
qed

lemma surrogate_value:
  "shape (surrogate t) = shape t \<and>
   map val (data (surrogate t)) = replicate (length (data t)) 0 \<and>
   map grad (data (surrogate t)) = map grad (data t)"
  by (simp add: surrogate_def tmap_def comp_def map_replicate_const)

lemma init_site_skip:
  "\<not> contributes s \<Longrightarrow> init_site ord (ld, lp) (nm, s) = Inr (ld, lp)"
  by (auto simp: init_site_def contributes_def)

lemma init_site_contributes:
  assumes "contributes s"
    and "init_site ord (ld, lp) (nm, s) = Inr (ld1, lp1)"
    and "case score_function s of Ten t \<Rightarrow> wf_tensor t | Num r \<Rightarrow> True"
  shows "\<exists>ordinal. ord nm = Some ordinal \<and>
           lp1 = dict_append lp ordinal (SiteTerm nm, weight_term s) \<and>
           (if sequential s
            then \<exists>n. infer_enum_total s = Some n \<and> 0 < n \<and>
                   ld1 = dict_set ld ordinal (dict_default ld ordinal 0 + ln (real_of_int n))
            else ld1 = ld)"
proof -
  have sample: "site_type s = ''sample''" and nz: "\<not> is_identically_zero (score_function s)"
    using assms(1) by (auto simp: contributes_def)
  obtain ordinal where ord: "ord nm = Some ordinal"
    using assms(2) sample nz by (cases "ord nm") (auto simp: init_site_def)
  show ?thesis
  proof (cases "truthy (infer_enumerate s)")
    case True
    then have mc: "\<not> monte_carlo s" by (simp add: monte_carlo_def)
    show ?thesis
    proof (cases "sequential s")
      case True
      then have seq: "infer_enumerate s = Some ''sequential''" by (simp add: sequential_def)
      then obtain n where n: "infer_enum_total s = Some n"
        using assms(2) sample nz ord \<open>truthy (infer_enumerate s)\<close>
        by (cases "infer_enum_total s") (auto simp: init_site_def)
      then have "0 < n \<and> ld1 = dict_set ld ordinal (dict_default ld ordinal 0 + ln (real_of_int n))
          \<and> lp1 = dict_append lp ordinal (SiteTerm nm, score_function s)"
        using assms(2) sample nz ord seq \<open>truthy (infer_enumerate s)\<close>
        by (auto simp: init_site_def math_log_def bind_eq_Inr split: if_splits)
      then show ?thesis using ord n True mc by (simp add: weight_term_def)
    next
      case False
      then have "infer_enumerate s \<noteq> Some ''sequential''" by (simp add: sequential_def)
      then have "ld1 = ld \<and> lp1 = dict_append lp ordinal (SiteTerm nm, score_function s)"
        using assms(2) sample nz ord \<open>truthy (infer_enumerate s)\<close>
        by (auto simp: init_site_def)
      then show ?thesis using ord False mc by (simp add: weight_term_def)
    qed
  next
    case False
    then have mc: "monte_carlo s" by (simp add: monte_carlo_def)
    have nseq: "\<not> sequential s" using False by (auto simp: sequential_def truthy_def)
    obtain t where t: "score_function s = Ten t"
      using assms(2) sample nz ord False by (cases "score_function s") (auto simp: init_site_def)
    then have "wf_tensor t" using assms(3) by simp
    then have "tsub t (tdetach t) = Inr (surrogate t)" by (rule tsub_detach)
    then have "ld1 = ld \<and> lp1 = dict_append lp ordinal (SiteTerm nm, Ten (surrogate t))"
      using assms(2) sample nz ord False t by (auto simp: init_site_def)
    then show ?thesis using ord nseq mc t by (simp add: weight_term_def)
  qed
qed

lemma terms_at_Cons:
  "terms_at ord ((nm, s) # tr) ordinal =
     (if contributes s \<and> ord nm = Some ordinal
      then (SiteTerm nm, weight_term s) # terms_at ord tr ordinal
      else terms_at ord tr ordinal)"
  by (simp add: terms_at_def sites_at_def)

lemma enum_logs_Cons:
  "enum_logs ord ((nm, s) # tr) ordinal =
     (if contributes s \<and> ord nm = Some ordinal \<and> sequential s
      then ln (real_of_int (the (infer_enum_total s))) # enum_logs ord tr ordinal
      else enum_logs ord tr ordinal)"
  by (simp add: enum_logs_def sites_at_def)

lemma init_loop_dicts:
  "init_loop ord (ld, lp) tr = Inr (ld', lp') \<Longrightarrow> wf_scores tr \<Longrightarrow>
   map_of lp' ordinal =
     (if terms_at ord tr ordinal = [] then map_of lp ordinal
      else Some (dict_default lp ordinal [] @ terms_at ord tr ordinal)) \<and>
   map_of ld' ordinal =
     (if enum_logs ord tr ordinal = [] then map_of ld ordinal
      else Some (dict_default ld ordinal 0 + sum_list (enum_logs ord tr ordinal)))"
proof (induction tr arbitrary: ld lp)
  case Nil
  then show ?case by (simp add: terms_at_def enum_logs_def sites_at_def)
next
  case (Cons node tr)
  obtain nm s where node: "node = (nm, s)" by (cases node)
  obtain ld1 lp1 where step: "init_site ord (ld, lp) (nm, s) = Inr (ld1, lp1)"
    and rest: "init_loop ord (ld1, lp1) tr = Inr (ld', lp')"
    using Cons.prems(1) node by (auto simp: bind_eq_Inr)
  have wf: "wf_scores tr" and wfs: "case score_function s of Ten t \<Rightarrow> wf_tensor t | Num r \<Rightarrow> True"
    using Cons.prems(2) node by (auto simp: wf_scores_def)
  note ih = Cons.IH [OF rest wf]
  show ?case
  proof (cases "contributes s")
    case False
    then have "ld1 = ld" "lp1 = lp" using step init_site_skip [of s ord ld lp nm] by auto
    then show ?thesis using ih False node by (simp add: terms_at_Cons enum_logs_Cons)
  next
    case True
    obtain o' where o': "ord nm = Some o'"
      and lp1: "lp1 = dict_append lp o' (SiteTerm nm, weight_term s)"
      and ld1: "if sequential s
            then \<exists>n. infer_enum_total s = Some n \<and> 0 < n \<and>
                   ld1 = dict_set ld o' (dict_default ld o' 0 + ln (real_of_int n))
            else ld1 = ld"
      using init_site_contributes [OF True step wfs] by blast
    have probs: "map_of lp' ordinal =
       (if terms_at ord (node # tr) ordinal = [] then map_of lp ordinal
        else Some (dict_default lp ordinal [] @ terms_at ord (node # tr) ordinal))"
      using ih True o' lp1 node
      by (auto simp: terms_at_Cons dict_append_def dict_default_def map_of_dict_set)
    have denoms: "map_of ld' ordinal =
       (if enum_logs ord (node # tr) ordinal = [] then map_of ld ordinal
        else Some (dict_default ld ordinal 0 + sum_list (enum_logs ord (node # tr) ordinal)))"
    proof (cases "sequential s")
      case False
      then show ?thesis using ih True o' ld1 node by (simp add: enum_logs_Cons)
    next
      case seq: True
      then obtain n where n: "infer_enum_total s = Some n"
        "ld1 = dict_set ld o' (dict_default ld o' 0 + ln (real_of_int n))"
        using ld1 by auto
      show ?thesis
        using ih True o' n seq node
        by (auto simp: enum_logs_Cons dict_default_def map_of_dict_set)
    qed
    show ?thesis using probs denoms node by simp
  qed
qed

lemma init_site_missing_total:
  "contributes s \<Longrightarrow> sequential s \<Longrightarrow> infer_enum_total s = None \<Longrightarrow>
   init_site ord dicts (nm, s) = Inl KeyError"
  by (cases dicts)
     (auto simp: init_site_def contributes_def sequential_def truthy_def split: option.splits)

lemma init_loop_fails:
  "(nm, s) \<in> set tr \<Longrightarrow> init_site ord dicts (nm, s) = Inl e \<Longrightarrow>
   (\<And>dicts'. \<exists>e'. init_site ord dicts' (nm, s) = Inl e') \<Longrightarrow>
   \<exists>e'. init_loop ord dicts tr = Inl e'"
proof (induction tr arbitrary: dicts e)
  case Nil
  then show ?case by simp
next
  case (Cons node tr)
  show ?case
  proof (cases "init_site ord dicts node")
    case (Inl e')
    then show ?thesis by simp
  next
    case (Inr dicts1)
    then have "node \<noteq> (nm, s)" using Cons.prems(2) by auto
    then have mem: "(nm, s) \<in> set tr" using Cons.prems(1) by auto
    obtain e1 where "init_site ord dicts1 (nm, s) = Inl e1" using Cons.prems(3) by blast
    then show ?thesis using Cons.IH [OF mem _ Cons.prems(3)] Inr by simp
  qed
qed

lemma wf_scalar: "wf_tensor (scalar x)"
  by (simp add: wf_tensor_def scalar_def)

lemma surrogate_scalar: "surrogate (scalar x) = scalar (Dual 0 (grad x))"
  by (simp add: surrogate_def scalar_def tmap_def)

lemma example_dice_init: "Dice_init example_trace example_ordering = Inr example_dice"
  by (simp add: Dice_init_def example_trace_def example_ordering_def example_dice_def
      init_site_def site_mc_def site_seq_def site_param_def is_identically_zero_def
      truthy_def math_log_def tsub_detach wf_scalar surrogate_scalar
      dict_append_def dict_default_def)

lemma example_trace_wf: "wf_scores example_trace"
  by (simp add: wf_scores_def example_trace_def site_mc_def site_seq_def site_param_def
      wf_scalar)

lemma example_dice_cache_ok: "cache_ok example_dice"
  by (simp add: cache_ok_def example_dice_def)

lemmas eval_defs =
  Dice_init_def init_site_def is_identically_zero_def truthy_def dict_append_def
  dict_default_def get_log_factors_def compute_log_factors_def Let_def in_context_def
  torch_exp_def sumproduct_def sum_down_def tmap_def scalar_def dexp_def dconst_def
  times_dual_def plus_dual_def zero_dual_def masked_product_def tmul_def tadd_def tbinop_def
  broadcast_shapes_def broadcast_dim_def expand_def bc_offset_def tsum_all_def
  compute_expectation_def

lemma dice_par_init: "Dice_init [(''z'', site_par)] example_ordering = Inr dice_par"
  by (simp add: eval_defs site_par_def example_ordering_def dice_par_def)

lemma dice_certain_init: "Dice_init [(''z'', site_certain)] example_ordering = Inr dice_certain"
  by (simp add: eval_defs site_certain_def example_ordering_def dice_certain_def)














lemma length_expand: "length (expand t s) = length (indices s)"
  by (simp add: expand_def)



lemma init_site_enumerated_round:
  assumes "contributes s" and "infer_enumerate s = Some e" and "e \<noteq> []"
    and "e \<noteq> ''sequential''" and "ord nm = Some ordinal"
  shows "init_site ord (ld, lp) (nm, s) =
           Inr (ld, dict_append lp ordinal (SiteTerm nm, score_function s))"
  using assms by (simp add: init_site_def contributes_def truthy_def)

lemma terms_at_member:
  "(nm, s) \<in> set tr \<Longrightarrow> contributes s \<Longrightarrow> ord nm = Some ordinal \<Longrightarrow>
   (SiteTerm nm, weight_term s) \<in> set (terms_at ord tr ordinal)"
  by (force simp: terms_at_def sites_at_def)

lemma exp_values:
  "map val (data (tmap dexp t)) = map (\<lambda>x. exp (val x)) (data t) \<and>
   (list_all (\<lambda>x. val x = 1) (data (tmap dexp t)) \<longleftrightarrow> list_all (\<lambda>x. val x = 0) (data t))"
  by (simp add: tmap_def dexp_def comp_def list_all_iff)




lemma compute_log_factors_prob_cache:
  "compute_log_factors (self\<lparr>prob_cache := c\<rparr>) T = compute_log_factors self T"
  by (simp add: compute_log_factors_def)

lemma cache_ok_prob_cache: "cache_ok (self\<lparr>prob_cache := c\<rparr>) = cache_ok self"
  by (simp add: cache_ok_def compute_log_factors_prob_cache)

lemma in_context_cache_ok:
  "cache_ok self \<Longrightarrow> in_context self shp ordinal = Inr (p, self') \<Longrightarrow> cache_ok self'"
proof -
  assume ok: "cache_ok self" and run: "in_context self shp ordinal = Inr (p, self')"
  show ?thesis
  proof (cases "map_of (prob_cache self) (strip_shape shp, ordinal)")
    case (Some q)
    then show ?thesis using ok run by (simp add: in_context_def Let_def)
  next
    case None
    obtain fs d1 where g: "get_log_factors self ordinal = (fs, d1)"
      by (cases "get_log_factors self ordinal")
    then have "cache_ok d1" using get_log_factors_cache_ok [OF ok, of ordinal] by simp
    then show ?thesis
      using None g run
      by (auto simp: in_context_def Let_def bind_eq_Inr cache_ok_prob_cache)
  qed
qed

lemma einsum_tables_cache_ok:
  "cache_ok self \<Longrightarrow> einsum_tables self tables ordinals = (tables', self') \<Longrightarrow>
   cache_ok self'"
proof (induction ordinals arbitrary: self tables)
  case Nil
  then show ?case by simp
next
  case (Cons ordinal ordinals)
  obtain fs d1 where g: "get_log_factors self ordinal = (fs, d1)"
    by (cases "get_log_factors self ordinal")
  then have "cache_ok d1" using get_log_factors_cache_ok [OF Cons.prems(1), of ordinal] by simp
  then show ?case using Cons.IH Cons.prems(2) g by simp
qed

lemma direct_costs_cache_ok:
  "cache_ok self \<Longrightarrow> direct_costs self e costs = Inr (r, self') \<Longrightarrow> cache_ok self'"
proof (induction costs arbitrary: self e)
  case Nil
  then show ?case by simp
next
  case (Cons c costs)
  obtain ordinal cost_terms where c: "c = (ordinal, cost_terms)" by (cases c)
  obtain tot where tot: "py_sum (Num 0) cost_terms = Inr tot"
    using Cons.prems(2) c by (auto simp: bind_eq_Inr)
  then obtain cost where cost: "tot = Ten cost"
    using Cons.prems(2) c by (cases tot) auto
  obtain p d1 e1 where
    "in_context self (shape cost) ordinal = Inr (p, d1)"
    "direct_costs d1 e1 costs = Inr (r, self')"
    using Cons.prems(2) c tot cost by (auto simp: bind_eq_Inr)
  then show ?case
    using Cons.IH in_context_cache_ok [OF Cons.prems(1)] by blast
qed

lemma compute_expectation_cache_ok:
  "cache_ok self \<Longrightarrow> compute_expectation self costs use_einsum = Inr (r, self') \<Longrightarrow>
   cache_ok self'"
proof (cases use_einsum)
  case True
  assume ok: "cache_ok self" and run: "compute_expectation self costs use_einsum = Inr (r, self')"
  obtain tables d1 where t: "einsum_tables self ([], []) (map fst costs) = (tables, d1)"
    by (cases "einsum_tables self ([], []) (map fst costs)")
  then have "cache_ok d1" using einsum_tables_cache_ok [OF ok] by blast
  moreover have "self' = d1"
    using run True t by (cases tables) (auto simp: compute_expectation_def bind_eq_Inr)
  ultimately show ?thesis by simp
next
  case False
  assume ok: "cache_ok self" and run: "compute_expectation self costs use_einsum = Inr (r, self')"
  then show ?thesis
    using False direct_costs_cache_ok [OF ok] by (simp add: compute_expectation_def)
qed












lemma strip_ones_id: "\<not> leading_one t \<Longrightarrow> strip_ones t = t"
  by (cases t) (auto simp: strip_ones_def leading_one_def dest: hd_dropWhile
      simp: dropWhile_eq_self_iff)

lemma strip_ones_squeeze: "leading_one t \<Longrightarrow> strip_ones (squeeze_0 t) = strip_ones t"
  by (cases "shape t") (auto simp: strip_ones_def leading_one_def squeeze_0_def)

lemma squeeze_loop_result:
  "squeeze_loop h v =
     (if leading_one (tensor_at h v) \<and> frozen (obj h v) then Inl RuntimeError
      else Inr (h\<lparr>obj := (obj h)(v := (obj h v)\<lparr>payload := strip_ones (tensor_at h v)\<rparr>)\<rparr>))"
proof (induction h v rule: squeeze_loop.induct)
  case (1 h v)
  show ?case
  proof (cases "leading_one (tensor_at h v)")
    case False
    then have "squeeze_loop h v = Inr h"
      by (subst squeeze_loop.simps) (auto simp: leading_one_def)
    then show ?thesis using False by (simp add: strip_ones_id)
  next
    case True
    then have cond: "shape (tensor_at h v) \<noteq> [] \<and> hd (shape (tensor_at h v)) = 1"
      by (simp add: leading_one_def)
    show ?thesis
    proof (cases "frozen (obj h v)")
      case fr: True
      then show ?thesis
        using True cond by (subst squeeze_loop.simps) (simp add: squeeze_inplace_def frozen_def)
    next
      case nf: False
      let ?h' = "h\<lparr>obj := (obj h)(v := (obj h v)\<lparr>payload := squeeze_0 (tensor_at h v)\<rparr>)\<rparr>"
      have sq: "squeeze_inplace h v = Inr ?h'"
        using nf by (auto simp: squeeze_inplace_def frozen_def)
      have nf': "\<not> frozen (obj ?h' v)" using nf by (simp add: frozen_def)
      have "squeeze_loop h v = squeeze_loop ?h' v"
        using cond sq by (subst squeeze_loop.simps) simp
      also have "\<dots> = Inr (?h'\<lparr>obj := (obj ?h')(v := (obj ?h' v)\<lparr>payload :=
                          strip_ones (tensor_at ?h' v)\<rparr>)\<rparr>)"
        using "1.IH" [OF cond sq] nf' by simp
      finally show ?thesis
        using True nf by (simp add: strip_ones_squeeze)
    qed
  qed
qed





lemma returned_Inl [simp]: "returned (Inl e) = Inl e"
  by (simp add: returned_def)

lemma returned_Inr [simp]: "returned (Inr (r, h)) = Inr (map_option (tensor_at h) r)"
  by (simp add: returned_def)



lemma reduce_frames_in_target:
  "set fs \<subseteq> T \<Longrightarrow> reduce_frames T fs h v = Inr (v, h)"
  by (induction fs) auto

lemma length_indices_prod: "length (indices s) = prod_list s"
  using offset_indices [of s] by (metis length_map length_upt minus_nat.diff_0)

lemma wf_tbinop: "tbinop f a b = Inr c \<Longrightarrow> wf_tensor c"
  by (auto simp: tbinop_def wf_tensor_def length_expand length_indices_prod split: option.splits)

lemma wf_tmap: "wf_tensor t \<Longrightarrow> wf_tensor (tmap f t)"
  by (simp add: wf_tensor_def tmap_def)

lemma wf_sum_dim: "wf_tensor (sum_dim k t)"
  by (simp add: wf_tensor_def sum_dim_def Let_def length_indices_prod)

lemma wf_squeeze_sum: "wf_tensor (squeeze_0 (sum_dim 0 t))"
proof (cases "shape t")
  case Nil
  then show ?thesis
    by (simp add: wf_tensor_def squeeze_0_def sum_dim_def Let_def)
next
  case (Cons n ns)
  then show ?thesis
    by (simp add: wf_tensor_def squeeze_0_def sum_dim_def Let_def length_indices_prod)
qed

lemma wf_sum_leading: "wf_tensor t \<Longrightarrow> wf_tensor (sum_leading n t)"
  by (induction n arbitrary: t) (auto simp: wf_squeeze_sum)

lemma wf_fold_sum:
  "wf_tensor u \<Longrightarrow>
   wf_tensor (fold (\<lambda>k w. if c k w then sum_dim k w else w) ks u)"
  by (induction ks arbitrary: u) (auto simp: wf_sum_dim)

lemma wf_sum_down: "wf_tensor t \<Longrightarrow> wf_tensor (sum_down t s)"
  by (simp add: sum_down_def Let_def wf_fold_sum wf_sum_leading)

lemma wf_vmul: "wf_val a \<Longrightarrow> wf_val b \<Longrightarrow> vmul a b = Inr c \<Longrightarrow> wf_val c"
  by (cases a; cases b) (auto simp: wf_val_def wf_tmap tmul_def bind_eq_Inr dest: wf_tbinop)


lemma wf_multiply_all:
  "wf_val acc \<Longrightarrow> list_all wf_val fs \<Longrightarrow> multiply_all acc fs = Inr p \<Longrightarrow> wf_val p"
proof (induction fs arbitrary: acc)
  case Nil
  then show ?case by simp
next
  case (Cons f fs)
  then show ?case by (auto simp: bind_eq_Inr dest: wf_vmul)
qed

lemma wf_sumproduct:
  "list_all wf_val fs \<Longrightarrow> sumproduct fs s = Inr p \<Longrightarrow> wf_val p"
proof -
  assume fs: "list_all wf_val fs" and sp: "sumproduct fs s = Inr p"
  obtain q where q: "multiply_all (Num 1) fs = Inr q"
    using sp by (auto simp: sumproduct_def bind_eq_Inr)
  have p: "p = (case q of Num r \<Rightarrow> Num r | Ten t \<Rightarrow> Ten (sum_down t s))"
    using sp q by (cases q) (auto simp: sumproduct_def)
  have "wf_val q" using wf_multiply_all [OF _ fs q] by (simp add: wf_val_def)
  then show ?thesis using p by (cases q) (auto simp: wf_val_def wf_sum_down)
qed

lemma wf_torch_exp: "wf_val x \<Longrightarrow> wf_val (torch_exp x)"
  by (cases x) (auto simp: wf_val_def torch_exp_def wf_tmap)






lemma wf_log_factors_spec:
  "wf_probs self \<Longrightarrow> f \<in> set (log_factors_spec self T) \<Longrightarrow> wf_val (snd f)"
  by (auto simp: wf_probs_def log_factors_spec_def upstream_terms_def wf_val_def
      split: if_splits)

lemma realize_cong:
  "log_denom a = log_denom b \<Longrightarrow> log_probs a = log_probs b \<Longrightarrow> realize a = realize b"
  by (simp add: realize_def log_factors_spec_def denominator_sum_def upstream_terms_def
      fun_eq_iff)

lemma strip_shape_idem: "strip_shape (strip_shape s) = strip_shape s"
  by (induction s) auto

lemma realize_strip: "realize self (strip_shape shp) ordinal = realize self shp ordinal"
  by (simp add: realize_def strip_shape_idem)

lemma wf_realize:
  "wf_probs self \<Longrightarrow> realize self shp ordinal = Inr p \<Longrightarrow> wf_val p"
proof -
  assume wf: "wf_probs self" and r: "realize self shp ordinal = Inr p"
  have "list_all wf_val (map (\<lambda>f. torch_exp (snd f)) (log_factors_spec self ordinal))"
    using wf_log_factors_spec [OF wf] by (auto simp: list_all_iff wf_torch_exp)
  then show ?thesis using r wf_sumproduct by (auto simp: realize_def)
qed

lemma get_log_factors_prob_cache:
  "prob_cache (snd (get_log_factors self T)) = prob_cache self"
  by (auto simp: get_log_factors_def Let_def split: option.splits)

lemma fair_get_log_factors:
  assumes "fair self"
  shows "fair (snd (get_log_factors self T)) \<and>
         fst (get_log_factors self T) = log_factors_spec self T \<and>
         realize (snd (get_log_factors self T)) = realize self"
proof -
  let ?s = "snd (get_log_factors self T)"
  have ok: "cache_ok self" using assms by (simp add: fair_def)
  note d = get_log_factors_dicts [of self T]
  have rc: "realize ?s = realize self" using d by (intro realize_cong) simp_all
  have "wf_cache ?s"
    using assms by (simp add: fair_def wf_cache_def get_log_factors_prob_cache)
  moreover have "wf_probs ?s" using assms d by (simp add: fair_def wf_probs_def)
  ultimately show ?thesis
    using get_log_factors_cache_ok [OF ok] get_log_factors_fst [OF ok] rc
    by (simp add: fair_def)
qed





lemma set_dict_set: "e \<in> set (dict_set m k v) \<Longrightarrow> e \<in> set m \<or> e = (k, v)"
  by (induction m) (auto split: if_splits)

lemma weight_at_strip:
  "strip_shape a = strip_shape b \<Longrightarrow> weight_at self a ordinal = weight_at self b ordinal"
proof -
  assume eq: "strip_shape a = strip_shape b"
  have "realize self a ordinal = realize self b ordinal"
    using realize_strip [of self a ordinal] realize_strip [of self b ordinal] eq by simp
  then show ?thesis using eq by (simp add: weight_at_def split: option.splits)
qed


lemma in_context_weight:
  assumes "fair self"
  shows "map_sum id fst (in_context self shp ordinal) = weight_at self shp ordinal \<and>
         (\<forall>p self'. in_context self shp ordinal = Inr (p, self') \<longrightarrow>
            fair self' \<and> weight_at self' = weight_at self)"
proof (cases "map_of (prob_cache self) (strip_shape shp, ordinal)")
  case (Some p)
  then show ?thesis
    using assms by (simp add: in_context_def Let_def weight_at_def)
next
  case None
  obtain lfs s1 where g: "get_log_factors self ordinal = (lfs, s1)"
    by (cases "get_log_factors self ordinal")
  note gg = fair_get_log_factors [OF assms, of ordinal]
  have g1: "fair s1" and lfs: "lfs = log_factors_spec self ordinal"
    and r1: "realize s1 = realize self"
    using gg g by simp_all
  have pc1: "prob_cache s1 = prob_cache self"
    using get_log_factors_prob_cache [of self ordinal] g by simp
  have val: "sumproduct (map (\<lambda>f. torch_exp (snd f)) lfs) (strip_shape shp) =
             realize self shp ordinal"
    using lfs by (simp add: realize_def)
  have w: "weight_at self shp ordinal = realize self shp ordinal"
    using None by (simp add: weight_at_def)
  have upd: "fair (s1\<lparr>prob_cache := dict_set (prob_cache s1) (strip_shape shp, ordinal) p\<rparr>) \<and>
             weight_at (s1\<lparr>prob_cache := dict_set (prob_cache s1) (strip_shape shp, ordinal) p\<rparr>)
               = weight_at self"
    if p: "realize self shp ordinal = Inr p" for p
  proof -
    let ?s2 = "s1\<lparr>prob_cache := dict_set (prob_cache s1) (strip_shape shp, ordinal) p\<rparr>"
    have r2: "realize ?s2 = realize self"
      using r1 realize_cong [of ?s2 s1] by simp
    have wp: "wf_val p" using wf_realize [OF _ p] assms by (simp add: fair_def)
    have "wf_cache ?s2"
      using g1 wp by (auto simp: fair_def wf_cache_def dest: set_dict_set)
    moreover have "cache_ok ?s2" using g1 by (simp add: fair_def cache_ok_prob_cache)
    moreover have "wf_probs ?s2" using g1 by (simp add: fair_def wf_probs_def)
    moreover have "weight_at ?s2 shp2 o2 = weight_at self shp2 o2" for shp2 o2
    proof (cases "(strip_shape shp2, o2) = (strip_shape shp, ordinal)")
      case True
      then have "weight_at self shp2 o2 = weight_at self shp ordinal"
        using weight_at_strip [of shp2 shp self ordinal] by simp
      then have "weight_at self shp2 o2 = Inr p" using w p by simp
      moreover have "weight_at ?s2 shp2 o2 = Inr p"
        using True by (simp add: weight_at_def map_of_dict_set)
      ultimately show ?thesis by simp
    next
      case False
      then have "map_of (prob_cache ?s2) (strip_shape shp2, o2) =
                 map_of (prob_cache self) (strip_shape shp2, o2)"
        using pc1 by (auto simp: map_of_dict_set)
      then show ?thesis unfolding weight_at_def r2 by simp
    qed
    ultimately show ?thesis by (simp add: fair_def fun_eq_iff)
  qed
  show ?thesis
  proof (cases "realize self shp ordinal")
    case (Inl e)
    then show ?thesis using None g val w by (simp add: in_context_def Let_def)
  next
    case (Inr p)
    then show ?thesis using None g val w upd [OF Inr] by (simp add: in_context_def Let_def)
  qed
qed



lemma dict_default_mem:
  "\<exists>ts. (k, ts) \<in> set m \<and> x \<in> set ts"
  if "x \<in> set (dict_default m k [])"
proof (cases "map_of m k")
  case None
  then show ?thesis using that by (simp add: dict_default_def)
next
  case (Some ts)
  then have "(k, ts) \<in> set m" by (rule map_of_SomeD)
  then show ?thesis using Some that by (auto simp: dict_default_def)
qed

lemma wf_weight_term:
  "(case score_function s of Ten t \<Rightarrow> wf_tensor t | Num r \<Rightarrow> True) \<Longrightarrow> wf_val (weight_term s)"
  by (cases "score_function s") (auto simp: weight_term_def wf_val_def surrogate_def wf_tmap)

lemma wf_dict_append:
  assumes "\<forall>e\<in>set lp. \<forall>f\<in>set (snd e). wf_val (snd f)" and "wf_val (snd x)"
  shows "\<forall>e\<in>set (dict_append lp k x). \<forall>f\<in>set (snd e). wf_val (snd f)"
proof (intro ballI)
  fix e f assume e: "e \<in> set (dict_append lp k x)" and f: "f \<in> set (snd e)"
  from e have "e \<in> set lp \<or> e = (k, dict_default lp k [] @ [x])"
    unfolding dict_append_def by (rule set_dict_set)
  then show "wf_val (snd f)"
  proof
    assume "e \<in> set lp"
    then show ?thesis using assms(1) f by blast
  next
    assume "e = (k, dict_default lp k [] @ [x])"
    then have "f \<in> set (dict_default lp k []) \<or> f = x" using f by auto
    then show ?thesis using assms dict_default_mem [of f lp k] by fastforce
  qed
qed

lemma init_loop_wf:
  "init_loop ord (ld, lp) tr = Inr (ld', lp') \<Longrightarrow> wf_scores tr \<Longrightarrow>
   \<forall>e\<in>set lp. \<forall>f\<in>set (snd e). wf_val (snd f) \<Longrightarrow>
   \<forall>e\<in>set lp'. \<forall>f\<in>set (snd e). wf_val (snd f)"
proof (induction tr arbitrary: ld lp)
  case Nil
  then show ?case by simp
next
  case (Cons node tr)
  obtain nm s where node: "node = (nm, s)" by (cases node)
  obtain ld1 lp1 where step: "init_site ord (ld, lp) (nm, s) = Inr (ld1, lp1)"
    and rest: "init_loop ord (ld1, lp1) tr = Inr (ld', lp')"
    using Cons.prems(1) node by (auto simp: bind_eq_Inr)
  have wf: "wf_scores tr" and wfs: "case score_function s of Ten t \<Rightarrow> wf_tensor t | Num r \<Rightarrow> True"
    using Cons.prems(2) node by (auto simp: wf_scores_def)
  have "\<forall>e\<in>set lp1. \<forall>f\<in>set (snd e). wf_val (snd f)"
  proof (cases "contributes s")
    case False
    then show ?thesis using step init_site_skip [of s ord ld lp nm] Cons.prems(3) by auto
  next
    case True
    obtain o' where "lp1 = dict_append lp o' (SiteTerm nm, weight_term s)"
      using init_site_contributes [OF True step wfs] by blast
    then show ?thesis
      using wf_dict_append [OF Cons.prems(3), of "(SiteTerm nm, weight_term s)" o']
        wf_weight_term [OF wfs] by simp
  qed
  then show ?case using Cons.IH [OF rest wf] by simp
qed

lemma Dice_init_fair:
  assumes "Dice_init tr ord = Inr d" and "wf_scores tr"
  shows "fair d \<and> prob_cache d = []"
proof -
  obtain ld lp where run: "init_loop ord ([], []) tr = Inr (ld, lp)"
    and d: "d = \<lparr>log_denom = ld, log_probs = lp, log_factors_cache = [], prob_cache = []\<rparr>"
    using assms(1) by (auto simp: Dice_init_def bind_eq_Inr)
  have "wf_probs d"
    using init_loop_wf [OF run assms(2)] d by (simp add: wf_probs_def)
  moreover have "wf_cache d" using d by (simp add: wf_cache_def)
  ultimately show ?thesis using Dice_init_cache_ok [OF assms(1)] d by (simp add: fair_def)
qed

lemma weight_at_fresh: "prob_cache d = [] \<Longrightarrow> weight_at d shp T = realize d shp T"
  by (simp add: weight_at_def)

lemma realize_single:
  assumes "log_denom d = []" and "log_probs d = [(ordinal, [(i, Ten (scalar x))])]"
  shows "realize d [] ordinal = Inr (Ten (scalar (Dual (exp (val x)) (grad x * exp (val x)))))"
  using assms
  by (simp add: realize_def log_factors_spec_def denominator_sum_def upstream_terms_def
      torch_exp_def sumproduct_def sum_down_def tmap_def scalar_def dexp_def dconst_def
      times_dual_def Let_def)

section \<open>Claims about MultiFrameTensor\<close>

text \<open>
  C5 (amended).  \<open>add\<close> raises the precondition violation only if some entry has a
  vectorized frame whose axis does not address an axis of its tensor, and whenever some
  entry is such, \<open>add\<close> fails.  When the tensors that land on one key can be added
  elementwise, \<open>add\<close> raises the precondition violation exactly when some entry
  violates the precondition, and succeeds when none does.  Whenever \<open>add\<close> succeeds,
  every key holds the elementwise sum of what it held before and of the tensors of the
  entries whose vectorized frames form that key.
\<close>

theorem add_precondition:
  "(add self items = Inl AssertionError \<longrightarrow> (\<exists>item\<in>set items. \<not> precondition item)) \<and>
   ((\<exists>item\<in>set items. \<not> precondition item) \<longrightarrow> (\<exists>e. add self items = Inl e)) \<and>
   (compatible self items \<longrightarrow>
      (add self items = Inl AssertionError \<longleftrightarrow> (\<exists>item\<in>set items. \<not> precondition item)) \<and>
      ((\<forall>item\<in>set items. precondition item) \<longrightarrow> (\<exists>self'. add self items = Inr self'))) \<and>
   (\<forall>self'. add self items = Inr self' \<longrightarrow>
      (\<forall>k. accumulate (mft_lookup self k) (values_for k items) = Inr (mft_lookup self' k)))"
  using add_assert_only_if [of self items] add_bad_fails [of items self]
    add_bad_asserts [of items self] add_succeeds [of items self] add_stored [of self items]
  by blast

theorem add_precondition_witness:
  "\<not> precondition ([plate_bad], t_3) \<and>
   (\<exists>e. add [] [([plate_bad], t_3)] = Inl e) \<and>
   precondition ([plate_i], t_3) \<and>
   add [] [([plate_i], t_3), ([plate_i, plate_i], t_3)] =
     Inr [([plate_i], Tensor [3] (map dconst [20, 40, 60]))] \<and>
   accumulate (mft_lookup [] [plate_i])
       (values_for [plate_i] [([plate_i], t_3), ([plate_i, plate_i], t_3)]) =
     Inr (mft_lookup [([plate_i], Tensor [3] (map dconst [20, 40, 60]))] [plate_i])"
proof -
  have bad: "\<not> precondition ([plate_bad], t_3)"
    by (simp add: precondition_def addresses_axis_def plate_bad_def)
  have ok: "precondition ([plate_i], t_3)"
    by (simp add: precondition_def addresses_axis_def plate_i_def t_3_def)
  have run: "add [] [([plate_i], t_3), ([plate_i, plate_i], t_3)] =
     Inr [([plate_i], Tensor [3] (map dconst [20, 40, 60]))]"
    by code_simp
  show ?thesis
    using bad ok run
      add_precondition [of "[]" "[([plate_bad], t_3)]"]
      add_precondition [of "[]" "[([plate_i], t_3), ([plate_i, plate_i], t_3)]"]
    by simp
qed

text \<open>
  C5 as stated fails: both entries satisfy the precondition on their frames, and \<open>add\<close>
  fails all the same, because the second tensor cannot be added to the first.
\<close>

theorem add_precondition_counterexample:
  "precondition ([plate_i], t_2) \<and> precondition ([plate_i], t_3) \<and>
   add [] [([plate_i], t_2), ([plate_i], t_3)] = Inl RuntimeError"
proof -
  have "precondition ([plate_i], t_2)"
    by (simp add: precondition_def addresses_axis_def plate_i_def t_2_def)
  moreover have "precondition ([plate_i], t_3)"
    by (simp add: precondition_def addresses_axis_def plate_i_def t_3_def)
  moreover have "add [] [([plate_i], t_2), ([plate_i], t_3)] = Inl RuntimeError"
    by code_simp
  ultimately show ?thesis by simp
qed




text \<open>
  C7 (amended).  When every entry was added under the single key \<open>K\<close>, the dict holds
  one tensor, the sum \<open>S\<close> of the added tensors, and \<open>sum_to\<close> with target \<open>K\<close> applies no
  reduction.  It returns \<open>S\<close> with its leading axes of extent one stripped, which has
  exactly the entries of \<open>S\<close>; unless \<open>S\<close> has a leading axis of extent one and is held
  by a leaf tensor that requires grad: then the in-place squeeze raises RuntimeError.
\<close>

theorem sum_to_original_key:
  assumes "items \<noteq> []"
    and "\<forall>item\<in>set items. same_key K item"
    and "add [] items = Inr (contents h self)"
  shows "\<exists>k r S. self = [(k, r)] \<and> set k = set K \<and>
           accumulate None (map snd items) = Inr (Some S) \<and> tensor_at h r = S \<and>
           (leading_one S \<and> frozen (obj h r) \<longrightarrow> sum_to h self (set K) = Inl RuntimeError) \<and>
           (\<not> (leading_one S \<and> frozen (obj h r)) \<longrightarrow>
              returned (sum_to h self (set K)) = Inr (Some (strip_ones S))) \<and>
           data (strip_ones S) = data S \<and>
           shape (strip_ones S) = dropWhile (\<lambda>n. n = 1) (shape S)"
proof -
  obtain item rest where items: "items = item # rest" using assms(1) by (cases items) auto
  obtain st v where item: "item = (st, v)" by (cases item)
  obtain s1 where s1: "add_item [] item = Inr s1" "add s1 rest = Inr (contents h self)"
    using assms(3) items by (auto simp: bind_eq_Inr)
  have ok: "precondition (st, v)"
    using s1(1) add_item_bad [of item "[]"] item by auto
  have s1_eq: "s1 = [(frozen_frames st, v)]"
    using s1(1) item by (simp add: add_item_ok [OF ok])
  have key: "set (frozen_frames st) = set K"
    using assms(2) items item by (simp add: same_key_def)
  obtain S where S: "contents h self = [(frozen_frames st, S)]"
      "accumulate (Some v) (map snd rest) = Inr (Some S)"
    using add_single_key [of rest K "frozen_frames st" v "contents h self"]
      assms(2) items key s1(2) s1_eq
    by auto
  obtain r where self: "self = [(frozen_frames st, r)]" and r: "tensor_at h r = S"
    using S(1) by (cases self) (auto simp: contents_def)
  have red: "reduce_frames (set K) (frozen_frames st) h r = Inr (r, h)"
    by (rule reduce_frames_in_target) (simp add: key)
  have run: "sum_to h self (set K) =
      bind (squeeze_loop h r) (\<lambda>h'. Inr (Some r, h'))"
    using red by (simp add: sum_to_def self sum_to_entry_def bind_def split: sum.splits)
  have fail: "sum_to h self (set K) = Inl RuntimeError" if "leading_one S \<and> frozen (obj h r)"
    using that r run by (simp add: squeeze_loop_result)
  have good: "returned (sum_to h self (set K)) = Inr (Some (strip_ones S))"
    if "\<not> (leading_one S \<and> frozen (obj h r))"
    using that r run by (simp add: squeeze_loop_result)
  show ?thesis
    using self key S(2) r fail good items item by (auto simp: strip_ones_def)
qed

theorem sum_to_original_key_witness:
  "[([plate_i], t_13), ([plate_i], t_13)] \<noteq> [] \<and>
   same_key [plate_i] ([plate_i], t_13) \<and>
   add [] [([plate_i], t_13), ([plate_i], t_13)] =
     Inr (contents (heap_of [plain (Tensor [1, 3] (map dconst [20, 40, 60]))])
            [([plate_i], 0)]) \<and>
   accumulate None (map snd [([plate_i], t_13), ([plate_i], t_13)]) =
     Inr (Some (Tensor [1, 3] (map dconst [20, 40, 60]))) \<and>
   \<not> frozen (obj (heap_of [plain (Tensor [1, 3] (map dconst [20, 40, 60]))]) 0) \<and>
   returned (sum_to (heap_of [plain (Tensor [1, 3] (map dconst [20, 40, 60]))])
       [([plate_i], 0)] (set [plate_i])) =
     Inr (Some (Tensor [3] (map dconst [20, 40, 60])))"
proof -
  let ?S = "Tensor [1, 3] (map dconst [20, 40, 60])"
  let ?h = "heap_of [plain ?S]"
  let ?items = "[([plate_i], t_13), ([plate_i], t_13)]"
  have ne: "?items \<noteq> []"
    by simp
  have key: "same_key [plate_i] ([plate_i], t_13)"
    by (simp add: same_key_def frozen_frames_def plate_i_def)
  then have keys: "\<forall>item\<in>set ?items. same_key [plate_i] item"
    by simp
  have con: "contents ?h [([plate_i], 0)] = [([plate_i], ?S)]"
    by (simp add: contents_def heap_of_def plain_def)
  have "add [] ?items = Inr [([plate_i], ?S)]"
    by code_simp
  then have run: "add [] ?items = Inr (contents ?h [([plate_i], 0)])"
    using con by simp
  have acc: "accumulate None (map snd ?items) = Inr (Some ?S)"
    by code_simp
  have nf: "\<not> frozen (obj ?h 0)"
    by (simp add: frozen_def heap_of_def plain_def)
  have st: "strip_ones ?S = Tensor [3] (map dconst [20, 40, 60])"
    by (simp add: strip_ones_def)
  obtain k r S where res: "[([plate_i], 0::nat)] = [(k, r)]"
      "accumulate None (map snd ?items) = Inr (Some S)"
      "\<not> (leading_one S \<and> frozen (obj ?h r)) \<longrightarrow>
         returned (sum_to ?h [([plate_i], 0)] (set [plate_i])) = Inr (Some (strip_ones S))"
    using sum_to_original_key [OF ne keys run] by blast
  then have "r = 0" "S = ?S"
    using acc by simp_all
  then have "returned (sum_to ?h [([plate_i], 0)] (set [plate_i])) =
      Inr (Some (Tensor [3] (map dconst [20, 40, 60])))"
    using res(3) nf st by simp
  then show ?thesis
    using ne key run acc nf by simp
qed

text \<open>
  C7 as stated fails for a sum with a leading axis of extent one: the tensor returned
  is not the sum itself, its shape is \<open>[3]\<close> where that of the sum is \<open>[1, 3]\<close>; and
  when the tensor added is a leaf that requires grad, \<open>sum_to\<close> returns nothing, it
  raises RuntimeError.
\<close>

theorem sum_to_original_key_counterexample:
  "add [] [([plate_i], t_13)] = Inr (contents (heap_of [plain t_13]) [([plate_i], 0)]) \<and>
   accumulate None (map snd [([plate_i], t_13)]) = Inr (Some t_13) \<and>
   returned (sum_to (heap_of [plain t_13]) [([plate_i], 0)] {plate_i}) = Inr (Some t_3) \<and>
   t_3 \<noteq> t_13 \<and>
   add [] [([plate_i], t_13)] = Inr (contents (heap_of [leaf_grad t_13]) [([plate_i], 0)]) \<and>
   returned (sum_to (heap_of [leaf_grad t_13]) [([plate_i], 0)] {plate_i}) =
     Inl RuntimeError"
proof -
  have "add [] [([plate_i], t_13)] = Inr [([plate_i], t_13)]"
    by code_simp
  moreover have "contents (heap_of [plain t_13]) [([plate_i], 0)] = [([plate_i], t_13)]"
    by (simp add: contents_def heap_of_def plain_def)
  moreover have "contents (heap_of [leaf_grad t_13]) [([plate_i], 0)] = [([plate_i], t_13)]"
    by (simp add: contents_def heap_of_def leaf_grad_def)
  moreover have
    "returned (sum_to (heap_of [plain t_13]) [([plate_i], 0)] {plate_i}) = Inr (Some t_3)"
    by code_simp
  moreover have "t_3 \<noteq> t_13"
    by (simp add: t_3_def t_13_def)
  moreover have
    "returned (sum_to (heap_of [leaf_grad t_13]) [([plate_i], 0)] {plate_i}) =
       Inl RuntimeError"
    by code_simp
  ultimately show ?thesis by simp
qed

section \<open>Claims about the Dice builder\<close>

text \<open>
  C2.  For every target ordinal \<open>T\<close>, \<open>_get_log_factors(T)\<close> returns, on a builder whose
  cache holds only lists it computed, (a) one leading factor, the negation of the sum of
  the stored log-denominators over every ordinal that is not a subset of \<open>T\<close>, present
  only when that sum is nonzero, followed by (b) the log-weight terms stored for every
  ordinal that is a subset of \<open>T\<close>, concatenated.  The call keeps the cache consistent
  and leaves the two dicts alone.  The constructor returns such a builder, and
  \<open>in_context\<close> and \<open>compute_expectation\<close> keep it so (lemmas \<open>Dice_init_cache_ok\<close>,
  \<open>in_context_cache_ok\<close>, \<open>compute_expectation_cache_ok\<close>).
\<close>

theorem get_log_factors_correct:
  "cache_ok self \<longrightarrow>
     fst (get_log_factors self T) =
       (if denominator_sum self T = 0 then []
        else [(Denom T, Num (- denominator_sum self T))]) @ upstream_terms self T \<and>
     cache_ok (snd (get_log_factors self T)) \<and>
     log_denom (snd (get_log_factors self T)) = log_denom self \<and>
     log_probs (snd (get_log_factors self T)) = log_probs self"
  using get_log_factors_fst [of self T] get_log_factors_cache_ok [of self T]
    get_log_factors_dicts [of self T]
  by (simp add: log_factors_spec_def)

theorem get_log_factors_correct_witness:
  "cache_ok example_dice \<and>
   denominator_sum example_dice {} = ln 3 \<and>
   upstream_terms example_dice {} = [(SiteTerm ''x'', Ten (scalar (Dual 0 2)))] \<and>
   fst (get_log_factors example_dice {}) =
     [(Denom {}, Num (- ln 3)), (SiteTerm ''x'', Ten (scalar (Dual 0 2)))] \<and>
   cache_ok (snd (get_log_factors example_dice {}))"
proof -
  have d: "denominator_sum example_dice {} = ln 3"
    by (simp add: denominator_sum_def example_dice_def)
  have u: "upstream_terms example_dice {} = [(SiteTerm ''x'', Ten (scalar (Dual 0 2)))]"
    by (simp add: upstream_terms_def example_dice_def)
  show ?thesis
    using example_dice_cache_ok d u get_log_factors_correct [of example_dice "{}"]
    by simp
qed

text \<open>
  C6.  For all ordinals \<open>A \<subseteq> B\<close>, every log-weight factor that stems from an ordinal
  \<open>o \<subseteq> A\<close> is included in \<open>_get_log_factors(A)\<close> and in \<open>_get_log_factors(B)\<close>; the
  upstream terms of \<open>A\<close> even appear in \<open>_get_log_factors(B)\<close> in their order, whether
  \<open>B\<close> is asked first or after \<open>A\<close>.
\<close>

theorem log_factors_monotone:
  assumes "cache_ok self" and "A \<subseteq> B"
  shows "subseq (upstream_terms self A) (fst (get_log_factors self B)) \<and>
         subseq (upstream_terms self A)
           (fst (get_log_factors (snd (get_log_factors self A)) B)) \<and>
         (\<forall>ordinal ts f. (ordinal, ts) \<in> set (log_probs self) \<longrightarrow> ordinal \<subseteq> A \<longrightarrow> f \<in> set ts \<longrightarrow>
            f \<in> set (fst (get_log_factors self A)) \<and>
            f \<in> set (fst (get_log_factors self B)))"
proof -
  have sub: "subseq (upstream_terms self A) (log_factors_spec self B)"
    unfolding log_factors_spec_def
    using subseq_upstream_terms [OF assms(2), of self] by (simp add: list_emb_append2)
  have ok': "cache_ok (snd (get_log_factors self A))"
    using assms(1) by (rule get_log_factors_cache_ok)
  have same: "log_factors_spec (snd (get_log_factors self A)) B = log_factors_spec self B"
    using get_log_factors_dicts [of self A]
    by (simp add: log_factors_spec_def denominator_sum_def upstream_terms_def)
  have mem: "f \<in> set (log_factors_spec self A) \<and> f \<in> set (log_factors_spec self B)"
    if "(ordinal, ts) \<in> set (log_probs self)" "ordinal \<subseteq> A" "f \<in> set ts" for ordinal ts f
    using that assms(2) upstream_terms_member [of ordinal ts self A f]
      upstream_terms_member [of ordinal ts self B f] by auto
  show ?thesis
    using sub mem same
    by (simp add: get_log_factors_fst [OF assms(1)] get_log_factors_fst [OF ok'])
qed

theorem log_factors_monotone_witness:
  "cache_ok example_dice \<and> ({} :: string set) \<subseteq> {''i''} \<and>
   ({}, [(SiteTerm ''x'', Ten (scalar (Dual 0 2)))]) \<in> set (log_probs example_dice) \<and>
   subseq (upstream_terms example_dice {}) (fst (get_log_factors example_dice {''i''})) \<and>
   (SiteTerm ''x'', Ten (scalar (Dual 0 2))) \<in> set (fst (get_log_factors example_dice {})) \<and>
   (SiteTerm ''x'', Ten (scalar (Dual 0 2))) \<in> set (fst (get_log_factors example_dice {''i''}))"
proof -
  have sub: "({} :: string set) \<subseteq> {''i''}"
    by simp
  have mem: "({}, [(SiteTerm ''x'', Ten (scalar (Dual 0 2)))]) \<in> set (log_probs example_dice)"
    by (simp add: example_dice_def)
  have "(SiteTerm ''x'', Ten (scalar (Dual 0 2))) \<in> set (fst (get_log_factors example_dice {})) \<and>
        (SiteTerm ''x'', Ten (scalar (Dual 0 2))) \<in> set (fst (get_log_factors example_dice {''i''}))"
    using log_factors_monotone [OF example_dice_cache_ok sub] mem by force
  then show ?thesis
    using example_dice_cache_ok mem log_factors_monotone [OF example_dice_cache_ok sub]
    by simp
qed

text \<open>
  C3.  When the constructor returns a builder \<open>d\<close> for a trace (whose score tensors are
  well formed), the log-weight list of an ordinal holds, in the order of the trace, one
  term for each sample site of that ordinal whose score-function term is not identically
  zero: for a Monte-Carlo sampled site the score-function term minus its detached
  value, whose entries all have value zero and the gradients of the score-function term;
  for an enumerated site the score-function term itself.  The log-denominator of an
  ordinal is the sum of \<open>log(_enum_total)\<close> over its sequentially enumerated sites among
  those.  Other sites contribute to neither dict.
\<close>

theorem Dice_init_sites:
  assumes "Dice_init tr ord = Inr d" and "wf_scores tr"
  shows "map_of (log_probs d) ordinal =
           (if terms_at ord tr ordinal = [] then None else Some (terms_at ord tr ordinal)) \<and>
         map_of (log_denom d) ordinal =
           (if enum_logs ord tr ordinal = [] then None
            else Some (sum_list (enum_logs ord tr ordinal))) \<and>
         (\<forall>t. (wf_tensor t \<longrightarrow> tsub t (tdetach t) = Inr (surrogate t)) \<and>
              shape (surrogate t) = shape t \<and>
              map val (data (surrogate t)) = replicate (length (data t)) 0 \<and>
              map grad (data (surrogate t)) = map grad (data t))"
proof -
  obtain ld lp where run: "init_loop ord ([], []) tr = Inr (ld, lp)"
    and d: "d = \<lparr>log_denom = ld, log_probs = lp, log_factors_cache = [], prob_cache = []\<rparr>"
    using assms(1) by (auto simp: Dice_init_def bind_eq_Inr)
  show ?thesis
    using init_loop_dicts [OF run assms(2), of ordinal] d surrogate_value tsub_detach
    by (simp add: dict_default_def)
qed

theorem Dice_init_sites_witness:
  "Dice_init example_trace example_ordering = Inr example_dice \<and>
   wf_scores example_trace \<and>
   terms_at example_ordering example_trace {} = [(SiteTerm ''x'', Ten (scalar (Dual 0 2)))] \<and>
   map_of (log_probs example_dice) {} = Some (terms_at example_ordering example_trace {}) \<and>
   enum_logs example_ordering example_trace {''i''} = [ln 3] \<and>
   map_of (log_denom example_dice) {''i''} =
     Some (sum_list (enum_logs example_ordering example_trace {''i''})) \<and>
   tsub (scalar (Dual (-1) 2)) (tdetach (scalar (Dual (-1) 2))) =
     Inr (surrogate (scalar (Dual (-1) 2)))"
proof -
  have t: "terms_at example_ordering example_trace {} =
      [(SiteTerm ''x'', Ten (scalar (Dual 0 2)))]"
    by (simp add: terms_at_def sites_at_def example_trace_def example_ordering_def
        contributes_def site_mc_def site_seq_def site_param_def is_identically_zero_def
        weight_term_def monte_carlo_def truthy_def surrogate_scalar)
  have e: "enum_logs example_ordering example_trace {''i''} = [ln 3]"
    by (simp add: enum_logs_def sites_at_def example_trace_def example_ordering_def
        contributes_def sequential_def site_mc_def site_seq_def site_param_def
        is_identically_zero_def)
  show ?thesis
    using t e example_dice_init example_trace_wf wf_scalar [of "Dual (-1) 2"]
      Dice_init_sites [OF example_dice_init example_trace_wf, of "{}"]
      Dice_init_sites [OF example_dice_init example_trace_wf, of "{''i''}"]
    by simp
qed

text \<open>
  C9.  If the trace contains a sample site whose score-function term is not identically
  zero and whose \<open>enumerate\<close> entry is "sequential" with no \<open>_enum_total\<close> entry, the
  constructor fails instead of returning a builder; the round of that site raises
  KeyError whatever the dicts hold.
\<close>

theorem Dice_init_missing_enum_total:
  assumes "(nm, s) \<in> set tr"
    and "site_type s = ''sample''"
    and "\<not> is_identically_zero (score_function s)"
    and "infer_enumerate s = Some ''sequential''"
    and "infer_enum_total s = None"
  shows "(\<exists>e. Dice_init tr ord = Inl e) \<and> (\<forall>dicts. init_site ord dicts (nm, s) = Inl KeyError)"
proof -
  have c: "contributes s" and q: "sequential s"
    using assms by (auto simp: contributes_def sequential_def)
  have site: "init_site ord dicts (nm, s) = Inl KeyError" for dicts
    using init_site_missing_total [OF c q assms(5)] .
  then obtain e where "init_loop ord ([], []) tr = Inl e"
    using init_loop_fails [OF assms(1), of ord "([], [])" KeyError] by blast
  then show ?thesis using site by (simp add: Dice_init_def)
qed

theorem Dice_init_missing_enum_total_witness:
  "(''z'', site_no_total) \<in> set [(''x'', site_mc), (''z'', site_no_total)] \<and>
   site_type site_no_total = ''sample'' \<and>
   \<not> is_identically_zero (score_function site_no_total) \<and>
   infer_enumerate site_no_total = Some ''sequential'' \<and>
   infer_enum_total site_no_total = None \<and>
   (\<exists>e. Dice_init [(''x'', site_mc), (''z'', site_no_total)] example_ordering = Inl e) \<and>
   init_site example_ordering ([], []) (''z'', site_no_total) = Inl KeyError"
proof -
  have h1: "(''z'', site_no_total) \<in> set [(''x'', site_mc), (''z'', site_no_total)]"
    by simp
  have h2: "site_type site_no_total = ''sample''"
    by (simp add: site_no_total_def)
  have h3: "\<not> is_identically_zero (score_function site_no_total)"
    by (simp add: site_no_total_def is_identically_zero_def)
  have h4: "infer_enumerate site_no_total = Some ''sequential''"
    by (simp add: site_no_total_def)
  have h5: "infer_enum_total site_no_total = None"
    by (simp add: site_no_total_def)
  show ?thesis
    using h1 h2 h3 h4 h5
      Dice_init_missing_enum_total [OF h1 h2 h3 h4 h5, of example_ordering]
    by simp
qed

text \<open>
  C10 (amended).  For a sample site whose \<open>enumerate\<close> entry is set to a non-empty value
  other than "sequential" and whose score-function term is not identically zero, the
  round of the constructor appends the score-function term itself to the log-weight list
  of the site's ordinal and leaves the log-denominators alone, and the builder returned
  holds that term.  So at every ordinal that includes the site's ordinal the term is one
  of the factors, and the weight realized there by \<open>in_context\<close> is the sum-product of
  the exponentiated factors: the site contributes the factor \<open>exp\<close> of its score, which
  is one exactly where the score is zero.  When the site's scalar score \<open>x\<close> is the only
  term of the builder, the weight realized at its ordinal is \<open>exp x\<close>, which is one
  exactly when \<open>x\<close> is zero: the weight is not forced to one in value, as it is for a
  Monte-Carlo sampled site, and it can be one.
\<close>

theorem Dice_init_enumerated:
  assumes "Dice_init tr ord = Inr d" and "wf_scores tr"
    and "(nm, s) \<in> set tr"
    and "site_type s = ''sample''"
    and "\<not> is_identically_zero (score_function s)"
    and "infer_enumerate s = Some e" and "e \<noteq> []" and "e \<noteq> ''sequential''"
    and "ord nm = Some ordinal"
  shows "(\<forall>ld lp. init_site ord (ld, lp) (nm, s) =
            Inr (ld, dict_append lp ordinal (SiteTerm nm, score_function s))) \<and>
         (SiteTerm nm, score_function s) \<in> set (dict_default (log_probs d) ordinal []) \<and>
         (\<forall>T shp. ordinal \<subseteq> T \<longrightarrow>
            (SiteTerm nm, score_function s) \<in> set (log_factors_spec d T) \<and>
            map_sum id fst (in_context d shp T) =
              sumproduct (map (\<lambda>f. torch_exp (snd f)) (log_factors_spec d T))
                (strip_shape shp)) \<and>
         (\<forall>t. score_function s = Ten t \<longrightarrow>
            torch_exp (score_function s) = Ten (tmap dexp t) \<and>
            map val (data (tmap dexp t)) = map (\<lambda>x. exp (val x)) (data t) \<and>
            (list_all (\<lambda>x. val x = 1) (data (tmap dexp t)) \<longleftrightarrow>
             list_all (\<lambda>x. val x = 0) (data t))) \<and>
         (\<forall>x. log_denom d = [] \<and>
              log_probs d = [(ordinal, [(SiteTerm nm, Ten (scalar x))])] \<longrightarrow>
            map_sum id fst (in_context d [] ordinal) =
              Inr (Ten (scalar (Dual (exp (val x)) (grad x * exp (val x))))) \<and>
            (exp (val x) = 1 \<longleftrightarrow> val x = 0))"
proof -
  have c: "contributes s" using assms(4,5) by (simp add: contributes_def)
  have w: "weight_term s = score_function s"
    using assms(6,7) by (simp add: weight_term_def monte_carlo_def truthy_def)
  obtain ld lp where run: "init_loop ord ([], []) tr = Inr (ld, lp)"
    and d: "d = \<lparr>log_denom = ld, log_probs = lp, log_factors_cache = [], prob_cache = []\<rparr>"
    using assms(1) by (auto simp: Dice_init_def bind_eq_Inr)
  have mem: "(SiteTerm nm, score_function s) \<in> set (terms_at ord tr ordinal)"
    using terms_at_member [of nm s tr ord ordinal] assms(3,9) c w by simp
  then have "terms_at ord tr ordinal \<noteq> []" by auto
  then have look: "map_of lp ordinal = Some (terms_at ord tr ordinal)"
    using init_loop_dicts [OF run assms(2), of ordinal] by (simp add: dict_default_def)
  then have stored: "(SiteTerm nm, score_function s) \<in> set (dict_default (log_probs d) ordinal [])"
    using mem d by (simp add: dict_default_def)
  have entry: "(ordinal, terms_at ord tr ordinal) \<in> set (log_probs d)"
    using look d by (auto dest: map_of_SomeD)
  have round: "init_site ord (ld', lp') (nm, s) =
      Inr (ld', dict_append lp' ordinal (SiteTerm nm, score_function s))" for ld' lp'
    using init_site_enumerated_round [of s e ord nm ordinal ld' lp'] c assms(6,7,8,9) by simp
  have g: "fair d" and fresh: "prob_cache d = []"
    using Dice_init_fair [OF assms(1,2)] by simp_all
  have ic: "map_sum id fst (in_context d shp T) = realize d shp T" for shp T
    using in_context_weight [OF g, of shp T] weight_at_fresh [OF fresh] by simp
  have weight: "(SiteTerm nm, score_function s) \<in> set (log_factors_spec d T) \<and>
      map_sum id fst (in_context d shp T) =
        sumproduct (map (\<lambda>f. torch_exp (snd f)) (log_factors_spec d T)) (strip_shape shp)"
    if "ordinal \<subseteq> T" for T shp
    using upstream_terms_member [OF entry that mem] ic [of shp T]
    by (simp add: realize_def)
  have single: "map_sum id fst (in_context d [] ordinal) =
      Inr (Ten (scalar (Dual (exp (val x)) (grad x * exp (val x)))))"
    if "log_denom d = [] \<and> log_probs d = [(ordinal, [(SiteTerm nm, Ten (scalar x))])]" for x
    using that ic [of "[]" ordinal] realize_single [of d ordinal _ x]
    by simp
  show ?thesis
    using round stored weight single exp_values by (simp add: torch_exp_def)
qed

theorem Dice_init_enumerated_witness:
  "Dice_init [(''z'', site_par)] example_ordering = Inr dice_par \<and>
   wf_scores [(''z'', site_par)] \<and>
   site_type site_par = ''sample'' \<and>
   \<not> is_identically_zero (score_function site_par) \<and>
   infer_enumerate site_par = Some ''parallel'' \<and>
   example_ordering ''z'' = Some {} \<and>
   init_site example_ordering ([], []) (''z'', site_par) =
     Inr ([], dict_append [] {} (SiteTerm ''z'', score_function site_par)) \<and>
   (SiteTerm ''z'', score_function site_par) \<in> set (dict_default (log_probs dice_par) {} []) \<and>
   (SiteTerm ''z'', score_function site_par) \<in> set (log_factors_spec dice_par {''i''}) \<and>
   map_sum id fst (in_context dice_par [] {''i''}) =
     sumproduct (map (\<lambda>f. torch_exp (snd f)) (log_factors_spec dice_par {''i''}))
       (strip_shape []) \<and>
   torch_exp (score_function site_par) = Ten (scalar (Dual (1 / 2) 0)) \<and>
   map_sum id fst (in_context dice_par [] {}) = Inr (Ten (scalar (Dual (1 / 2) 0)))"
proof -
  have wf: "wf_scores [(''z'', site_par)]"
    by (simp add: wf_scores_def site_par_def wf_scalar)
  have h1: "(''z'', site_par) \<in> set [(''z'', site_par)]"
    by simp
  have h2: "site_type site_par = ''sample''"
    by (simp add: site_par_def)
  have h3: "\<not> is_identically_zero (score_function site_par)"
    by (simp add: site_par_def is_identically_zero_def)
  have h4: "infer_enumerate site_par = Some ''parallel''"
    by (simp add: site_par_def)
  have h5: "''parallel'' \<noteq> []" and h6: "''parallel'' \<noteq> ''sequential''"
    by simp_all
  have h7: "example_ordering ''z'' = Some {}"
    by (simp add: example_ordering_def)
  have e: "torch_exp (score_function site_par) = Ten (scalar (Dual (1 / 2) 0))"
    by (simp add: torch_exp_def site_par_def tmap_def scalar_def dexp_def)
  have d1: "log_denom dice_par = []"
    and d2: "log_probs dice_par =
       [({}, [(SiteTerm ''z'', Ten (scalar (Dual (ln (1 / 2)) 0)))])]"
    by (simp_all add: dice_par_def)
  note inst = Dice_init_enumerated [OF dice_par_init wf h1 h2 h3 h4 h5 h6 h7]
  have up: "(SiteTerm ''z'', score_function site_par) \<in> set (log_factors_spec dice_par {''i''}) \<and>
      map_sum id fst (in_context dice_par [] {''i''}) =
        sumproduct (map (\<lambda>f. torch_exp (snd f)) (log_factors_spec dice_par {''i''}))
          (strip_shape [])"
    using inst by blast
  have "map_sum id fst (in_context dice_par [] {}) =
      Inr (Ten (scalar (Dual (exp (val (Dual (ln (1 / 2)) 0)))
                             (grad (Dual (ln (1 / 2)) 0) * exp (val (Dual (ln (1 / 2)) 0))))))"
    using inst d1 d2 by blast
  then have one: "map_sum id fst (in_context dice_par [] {}) = Inr (Ten (scalar (Dual (1 / 2) 0)))"
    by simp
  show ?thesis
    using dice_par_init wf h2 h3 h4 h7 e up one inst by simp
qed

text \<open>
  C10 as stated fails in two ways.  For a score-function term that is zero, the site is
  enumerated in parallel, its term is appended as it is, and the weight realized at its
  ordinal has the value one.  For an \<open>enumerate\<close> entry set to the empty string, a value
  other than "sequential", the code takes the site for a Monte-Carlo sampled one (the
  test is on truthiness) and appends the score minus its detached value, not the raw
  score.
\<close>

theorem Dice_init_enumerated_counterexample:
  "Dice_init [(''z'', site_certain)] example_ordering = Inr dice_certain \<and>
   infer_enumerate site_certain = Some ''parallel'' \<and>
   \<not> is_identically_zero (score_function site_certain) \<and>
   log_probs dice_certain = [({}, [(SiteTerm ''z'', score_function site_certain)])] \<and>
   map_sum id fst (in_context dice_certain [] {}) = Inr (Ten (scalar (Dual 1 2))) \<and>
   infer_enumerate site_empty_enum = Some [] \<and> [] \<noteq> ''sequential'' \<and>
   \<not> is_identically_zero (score_function site_empty_enum) \<and>
   score_function site_empty_enum = Ten (scalar (Dual (-1) 2)) \<and>
   Dice_init [(''z'', site_empty_enum)] example_ordering =
     Inr \<lparr>log_denom = [], log_probs = [({}, [(SiteTerm ''z'', Ten (scalar (Dual 0 2)))])],
          log_factors_cache = [], prob_cache = []\<rparr>"
proof -
  have "log_probs dice_certain = [({}, [(SiteTerm ''z'', score_function site_certain)])]"
    by (simp add: dice_certain_def site_certain_def)
  moreover have
    "map_sum id fst (in_context dice_certain [] {}) = Inr (Ten (scalar (Dual 1 2)))"
    by (simp add: eval_defs dice_certain_def)
  moreover have "infer_enumerate site_certain = Some ''parallel''"
    "\<not> is_identically_zero (score_function site_certain)"
    by (simp_all add: site_certain_def is_identically_zero_def)
  moreover have "infer_enumerate site_empty_enum = Some []"
    "\<not> is_identically_zero (score_function site_empty_enum)"
    "score_function site_empty_enum = Ten (scalar (Dual (-1) 2))"
    by (simp_all add: site_empty_enum_def is_identically_zero_def)
  moreover have "Dice_init [(''z'', site_empty_enum)] example_ordering =
     Inr \<lparr>log_denom = [], log_probs = [({}, [(SiteTerm ''z'', Ten (scalar (Dual 0 2)))])],
          log_factors_cache = [], prob_cache = []\<rparr>"
    by (simp add: Dice_init_def init_site_def site_empty_enum_def example_ordering_def
      is_identically_zero_def truthy_def tsub_detach wf_scalar surrogate_scalar
      dict_append_def dict_default_def)
  ultimately show ?thesis
    using dice_certain_init by simp
qed

section \<open>Claims about the expectation\<close>

text \<open>
  C1 fails on the code.  The builder has one site, enumerated in parallel, with
  probability 1/2 at the empty ordinal; the cost table has the cost 1 at the empty
  ordinal and the cost 1 at the ordinal \<open>{i}\<close>.  The direct path weighs both costs by
  1/2 and returns 1.  The shared path appends a factor to \<open>factors_table\<close> only when it
  exponentiates it for the first time, so the ordinal \<open>{i}\<close>, which shares the factor
  with the empty ordinal, gets no factor and the weight 1: it returns 3/2.
\<close>

theorem compute_expectation_paths_differ:
  "Dice_init [(''z'', site_par)] example_ordering = Inr dice_par \<and>
   map_sum id fst (compute_expectation dice_par costs_two True) =
     Inr (Ten (scalar (Dual (3 / 2) 0))) \<and>
   map_sum id fst (compute_expectation dice_par costs_two False) =
     Inr (Ten (scalar (Dual 1 0)))"
proof -
  have "map_sum id fst (compute_expectation dice_par costs_two True) =
     Inr (Ten (scalar (Dual (3 / 2) 0)))"
    by (simp add: eval_defs dice_par_def costs_two_def)
  moreover have "map_sum id fst (compute_expectation dice_par costs_two False) =
     Inr (Ten (scalar (Dual 1 0)))"
    by (simp add: eval_defs dice_par_def costs_two_def)
  ultimately show ?thesis
    using dice_par_init by simp
qed



end
